theory Spec2Isabelle
  imports Main "HOL-Library.Word"
begin

unbundle bit_operations_syntax

section \<open>Host environment\<close>

text \<open>
  The code reads from its host what is not a function of its arguments. These are the
  fields of a host state that every function which draws from it takes and returns.
  \<^item> \<open>crypto\<close> is \<open>None\<close> when \<^verbatim>\<open>typeof crypto === 'undefined'\<close> or
    \<^verbatim>\<open>crypto.getRandomValues\<close> is falsy; otherwise it gives the \<open>i\<close>-th byte the
    host's secure generator ever writes.
  \<^item> \<open>math_random i\<close> is the value of \<^verbatim>\<open>Math.floor(Math.random() * 256)\<close> at the
    \<open>i\<close>-th draw.
  \<^item> \<open>drawn\<close> counts the bytes \<open>randomHex\<close> has drawn so far.
  \<^item> \<open>uuid_rng\<close> and \<open>uuid_drawn\<close> are the same for the generator of the uuid package.
  \<^item> \<open>array_extra\<close>: the largest \<^verbatim>\<open>Uint8Array\<close> the engine allocates differs between
    engines; it is never below the 65536 bytes that \<^verbatim>\<open>getRandomValues\<close> accepts, and
    \<open>array_extra\<close> is what the engine allows beyond that.
  \<^item> \<open>prototype_names\<close>: the property names under which the header object of a request
    inherits something truthy from its prototype chain (\<^verbatim>\<open>constructor\<close>,
    \<^verbatim>\<open>toString\<close> and the other members of \<^verbatim>\<open>Object.prototype\<close>, and the methods of
    the transport's header class).
\<close>

type_synonym byte = "8 word"

record host =
  crypto :: "(nat \<Rightarrow> byte) option"
  math_random :: "nat \<Rightarrow> nat"
  drawn :: nat
  uuid_rng :: "nat \<Rightarrow> byte"
  uuid_drawn :: nat
  array_extra :: nat
  prototype_names :: "string list"

text \<open>The exceptions the host raises inside \<open>randomHex\<close>.\<close>

datatype error = RangeError | QuotaExceededError

section \<open>Random identifier generator\<close>

text \<open>
  \<^verbatim>\<open>b.toString(16).padStart(2, '0')\<close>: the digits of \<open>b\<close> in base 16, lowercase, most
  significant first, then padded on the left to two characters.
\<close>

definition hex_digit :: "nat \<Rightarrow> char" where
  "hex_digit d = ''0123456789abcdef'' ! d"

function toString16 :: "nat \<Rightarrow> string" where
  "toString16 n = (if n < 16 then [hex_digit n]
                   else toString16 (n div 16) @ [hex_digit (n mod 16)])"
  by pat_completeness auto
termination
  by (relation "measure id") auto

declare toString16.simps [simp del]

definition padStart :: "nat \<Rightarrow> char \<Rightarrow> string \<Rightarrow> string" where
  "padStart n c s = replicate (n - length s) c @ s"

definition byte_hex :: "byte \<Rightarrow> string" where
  "byte_hex b = padStart 2 (CHR ''0'') (toString16 (unat b))"

text \<open>\<^verbatim>\<open>Array.from(bytes, ...).join('')\<close>: the renderings of the bytes, one after the other.\<close>

definition hex_bytes :: "byte list \<Rightarrow> string" where
  "hex_bytes bs = concat (map byte_hex bs)"

text \<open>
  \<^verbatim>\<open>new Uint8Array(n)\<close> followed by the fill. The allocation throws a \<^verbatim>\<open>RangeError\<close>
  above the engine's limit. With a secure source, \<^verbatim>\<open>crypto.getRandomValues\<close> throws a
  \<^verbatim>\<open>QuotaExceededError\<close> for an array of more than 65536 bytes and else writes the next
  \<open>n\<close> bytes of the source; without one, the loop stores one \<^verbatim>\<open>Math.random\<close> draw per
  byte (a store into a \<^verbatim>\<open>Uint8Array\<close> keeps the value modulo 256).
\<close>

definition array_limit :: "host \<Rightarrow> nat" where
  "array_limit h = 65536 + array_extra h"

definition random_bytes :: "nat \<Rightarrow> host \<Rightarrow> error + byte list \<times> host" where
  "random_bytes n h =
     (if array_limit h < n then Inl RangeError
      else case crypto h of
             Some g \<Rightarrow>
               if 65536 < n then Inl QuotaExceededError
               else Inr (map g [drawn h ..< drawn h + n], h\<lparr>drawn := drawn h + n\<rparr>)
           | None \<Rightarrow>
               Inr (map (\<lambda>i. word_of_nat (math_random h i)) [drawn h ..< drawn h + n],
                    h\<lparr>drawn := drawn h + n\<rparr>))"

text \<open>
  \<^verbatim>\<open>randomHex(length)\<close>: the argument is the number of hex characters wanted; the array
  has \<open>length / 2\<close> bytes (\<^verbatim>\<open>Uint8Array\<close> truncates a fractional size). An exception of
  the host leaves the function.
\<close>

definition randomHex :: "nat \<Rightarrow> host \<Rightarrow> error + string \<times> host" where
  "randomHex len h =
     (case random_bytes (len div 2) h of
        Inl e \<Rightarrow> Inl e
      | Inr (bytes, h') \<Rightarrow> Inr (hex_bytes bytes, h'))"

text \<open>
  For stating what was drawn: the next \<open>n\<close> bytes that the host's source delivers, from
  the secure generator when there is one, else from \<^verbatim>\<open>Math.random\<close>.
\<close>

definition next_bytes :: "nat \<Rightarrow> host \<Rightarrow> byte list" where
  "next_bytes n h =
     (case crypto h of
        Some g \<Rightarrow> map g [drawn h ..< drawn h + n]
      | None \<Rightarrow> map (\<lambda>i. word_of_nat (math_random h i)) [drawn h ..< drawn h + n])"

section \<open>Trace-context synthesizer\<close>

record trace =
  traceparent :: string
  traceId :: string

definition generateTraceparent :: "host \<Rightarrow> error + trace \<times> host" where
  "generateTraceparent h =
     (let version = ''00''; flags = ''01''
      in case randomHex 32 h of
           Inl e \<Rightarrow> Inl e
         | Inr (tid, h1) \<Rightarrow>
             (case randomHex 16 h1 of
                Inl e \<Rightarrow> Inl e
              | Inr (parentId, h2) \<Rightarrow>
                  Inr (\<lparr>traceparent = version @ ''-'' @ tid @ ''-'' @ parentId @ ''-'' @ flags,
                        traceId = tid\<rparr>, h2)))"

text \<open>The regular expression \<^verbatim>\<open>^00-[0-9a-f]{32}-[0-9a-f]{16}-01$\<close>, position by position.\<close>

definition lower_hex :: "char \<Rightarrow> bool" where
  "lower_hex c = (c \<in> set ''0123456789abcdef'')"

definition traceparent_re :: "string \<Rightarrow> bool" where
  "traceparent_re s =
     (length s = 55 \<and> take 3 s = ''00-'' \<and> list_all lower_hex (take 32 (drop 3 s)) \<and>
      take 1 (drop 35 s) = ''-'' \<and> list_all lower_hex (take 16 (drop 36 s)) \<and>
      drop 52 s = ''-01'')"

section \<open>Transaction identifiers\<close>

text \<open>
  \<^verbatim>\<open>uuidv4\<close> is the \<^verbatim>\<open>v4\<close> function of the uuid package, which \<^verbatim>\<open>index.ts\<close>
  imports and which is not under \<^verbatim>\<open>src/\<close>. The four definitions below stand for it.
\<close>

text \<open>
  Modelled from the spec: the random source of \<^verbatim>\<open>uuidv4\<close>, missing from the sources; the
  spec calls the identifier freshly generated and random, and a version-4 UUID has 16
  bytes.
\<close>

definition uuid_random :: "host \<Rightarrow> byte list \<times> host" where
  "uuid_random h =
     (map (uuid_rng h) [uuid_drawn h ..< uuid_drawn h + 16],
      h\<lparr>uuid_drawn := uuid_drawn h + 16\<rparr>)"

text \<open>
  Modelled from the spec: the version and variant marks of \<^verbatim>\<open>uuidv4\<close>, missing from the
  sources; in the spec's shape \<^verbatim>\<open>xxxxxxxx-xxxx-4xxx-[89ab]xxx-xxxxxxxxxxxx\<close> the first hex
  digit of byte 6 is \<open>4\<close> and that of byte 8 is one of \<open>8\<close>, \<open>9\<close>, \<open>a\<close>, \<open>b\<close>.
\<close>

definition uuid_stamp :: "byte list \<Rightarrow> byte list" where
  "uuid_stamp rnds =
     (rnds[6 := (rnds ! 6 AND 0x0f) OR 0x40])[8 := (rnds ! 8 AND 0x3f) OR 0x80]"

text \<open>
  Modelled from the spec: the text form of \<^verbatim>\<open>uuidv4\<close>, missing from the sources; the
  spec's shape has lowercase hex digits in groups of 8, 4, 4, 4 and 12, joined by hyphens.
\<close>

definition uuid_stringify :: "byte list \<Rightarrow> string" where
  "uuid_stringify arr =
     hex_bytes (take 4 arr) @ ''-'' @ hex_bytes (take 2 (drop 4 arr)) @ ''-'' @
     hex_bytes (take 2 (drop 6 arr)) @ ''-'' @ hex_bytes (take 2 (drop 8 arr)) @ ''-'' @
     hex_bytes (take 6 (drop 10 arr))"

text \<open>
  Modelled from the spec: \<^verbatim>\<open>uuidv4()\<close> itself, missing from the sources: a freshly
  generated random identifier of the shape \<^verbatim>\<open>xxxxxxxx-xxxx-4xxx-[89ab]xxx-xxxxxxxxxxxx\<close>.
\<close>

definition uuidv4 :: "host \<Rightarrow> string \<times> host" where
  "uuidv4 h = (let (rnds, h') = uuid_random h in (uuid_stringify (uuid_stamp rnds), h'))"

text \<open>The shape \<^verbatim>\<open>xxxxxxxx-xxxx-4xxx-[89ab]xxx-xxxxxxxxxxxx\<close>, position by position.\<close>

definition uuid_v4_shape :: "string \<Rightarrow> bool" where
  "uuid_v4_shape s =
     (length s = 36 \<and> list_all lower_hex (take 8 s) \<and> take 1 (drop 8 s) = ''-'' \<and>
      list_all lower_hex (take 4 (drop 9 s)) \<and> take 1 (drop 13 s) = ''-'' \<and>
      take 1 (drop 14 s) = ''4'' \<and> list_all lower_hex (take 3 (drop 15 s)) \<and>
      take 1 (drop 18 s) = ''-'' \<and> take 1 (drop 19 s) \<in> set [''8'', ''9'', ''a'', ''b''] \<and>
      list_all lower_hex (take 3 (drop 20 s)) \<and> take 1 (drop 23 s) = ''-'' \<and>
      list_all lower_hex (drop 24 s))"

section \<open>Configuration\<close>

text \<open>
  \<open>BaseAPIServiceConfig\<close> as the caller writes it (every field but \<^verbatim>\<open>axiosConfig\<close> is
  optional), and the values the constructor destructures from it, with its defaults.
\<close>

record BaseAPIServiceConfig =
  cfg_transactionIdHeader :: "string option"
  cfg_disableTransactionId :: "bool option"
  cfg_enableTraceContext :: "bool option"
  cfg_useTraceIdAsTransactionId :: "bool option"
  cfg_serviceName :: "string option"

record settings =
  transactionIdHeader :: string
  disableTransactionId :: bool
  enableTraceContext :: bool
  useTraceIdAsTransactionId :: bool
  serviceName :: "string option"

definition default_to :: "'a \<Rightarrow> 'a option \<Rightarrow> 'a" where
  "default_to d v = (case v of None \<Rightarrow> d | Some x \<Rightarrow> x)"

definition resolve :: "BaseAPIServiceConfig \<Rightarrow> settings" where
  "resolve c =
     \<lparr>transactionIdHeader = default_to ''X-Transaction-ID'' (cfg_transactionIdHeader c),
      disableTransactionId = default_to False (cfg_disableTransactionId c),
      enableTraceContext = default_to False (cfg_enableTraceContext c),
      useTraceIdAsTransactionId = default_to False (cfg_useTraceIdAsTransactionId c),
      serviceName = cfg_serviceName c\<rparr>"

section \<open>Request interceptor\<close>

text \<open>
  The header object is a map from the names of its own properties to their values, read
  and written by exact key (\<^verbatim>\<open>config.headers['traceparent']\<close>); values are strings, as
  \<^verbatim>\<open>RequestOptions.headers\<close> declares. \<open>truthy\<close> is the truthiness of a string that may
  be missing: \<^verbatim>\<open>undefined\<close> and the empty string are falsy.

  A read \<^verbatim>\<open>config.headers[k]\<close> gives the object's own entry when it has one, and else
  what the object inherits under \<open>k\<close>. \<open>present h hs k\<close> is the test
  \<^verbatim>\<open>config.headers[k]\<close> of the code (it is used negated): an own entry counts when it
  is not empty, and a name without own entry counts when something is inherited under
  it. No prototype has a property called \<^verbatim>\<open>traceparent\<close>, \<^verbatim>\<open>X-Trace-ID\<close> or
  \<^verbatim>\<open>X-Source-Service\<close>, and \<open>inherited\<close> leaves these three names out whatever the host
  lists.
\<close>

type_synonym headers = "string \<rightharpoonup> string"

definition truthy :: "string option \<Rightarrow> bool" where
  "truthy v = (case v of None \<Rightarrow> False | Some s \<Rightarrow> s \<noteq> [])"

definition inherited :: "host \<Rightarrow> string \<Rightarrow> bool" where
  "inherited h k =
     (k \<in> set (prototype_names h) \<and>
      k \<notin> set [''traceparent'', ''X-Trace-ID'', ''X-Source-Service''])"

definition present :: "host \<Rightarrow> headers \<Rightarrow> string \<Rightarrow> bool" where
  "present h hs k = (case hs k of Some v \<Rightarrow> v \<noteq> [] | None \<Rightarrow> inherited h k)"

text \<open>
  What the optional tracing runtime answers for one request: the lookup
  \<^verbatim>\<open>otel.trace.getSpan(otel.context.active())\<close> with \<^verbatim>\<open>spanContext()\<close> throws, finds
  no span, or finds a span with a trace id. The interceptor's argument \<open>otel\<close> is \<open>None\<close>
  when \<^verbatim>\<open>getOTelAPI()\<close> returned \<^verbatim>\<open>undefined\<close>. An exception of the lookup is caught
  by the interceptor; one of \<open>generateTraceparent\<close> is not.
\<close>

datatype span_lookup = Lookup_throws | No_span | Active_span string

definition span_step ::
  "settings \<Rightarrow> span_lookup option \<Rightarrow> host \<Rightarrow> headers \<Rightarrow> string option \<times> headers" where
  "span_step s otel h hs =
     (case otel of
        Some (Active_span t) \<Rightarrow>
          (Some t,
           if enableTraceContext s \<and> \<not> present h hs ''X-Trace-ID''
           then hs(''X-Trace-ID'' \<mapsto> t) else hs)
      | _ \<Rightarrow> (None, hs))"

definition traceparent_step ::
  "settings \<Rightarrow> string option \<Rightarrow> headers \<Rightarrow> host \<Rightarrow>
   error + string option \<times> headers \<times> host" where
  "traceparent_step s tid hs h =
     (if enableTraceContext s \<and> \<not> present h hs ''traceparent''
      then (case generateTraceparent h of
              Inl e \<Rightarrow> Inl e
            | Inr (tr, h') \<Rightarrow>
                Inr ((case tid of None \<Rightarrow> Some (traceId tr) | Some t \<Rightarrow> Some t),
                     hs(''traceparent'' \<mapsto> traceparent tr), h'))
      else Inr (tid, hs, h))"

definition transaction_id :: "settings \<Rightarrow> string option \<Rightarrow> host \<Rightarrow> string \<times> host" where
  "transaction_id s tid h =
     (case tid of
        Some t \<Rightarrow> if useTraceIdAsTransactionId s \<and> t \<noteq> [] then (t, h) else uuidv4 h
      | None \<Rightarrow> uuidv4 h)"

definition transaction_step ::
  "settings \<Rightarrow> string option \<Rightarrow> headers \<Rightarrow> host \<Rightarrow> headers \<times> host" where
  "transaction_step s tid hs h =
     (if \<not> disableTransactionId s \<and> \<not> present h hs (transactionIdHeader s)
      then (let (v, h') = transaction_id s tid h in (hs(transactionIdHeader s \<mapsto> v), h'))
      else (hs, h))"

definition service_step :: "settings \<Rightarrow> host \<Rightarrow> headers \<Rightarrow> headers" where
  "service_step s h hs =
     (case serviceName s of
        Some n \<Rightarrow>
          if n \<noteq> [] \<and> \<not> present h hs ''X-Source-Service''
          then hs(''X-Source-Service'' \<mapsto> n) else hs
      | None \<Rightarrow> hs)"

definition interceptor ::
  "settings \<Rightarrow> span_lookup option \<Rightarrow> headers option \<Rightarrow> host \<Rightarrow> error + headers \<times> host" where
  "interceptor s otel req h =
     (let hs0 = (case req of None \<Rightarrow> Map.empty | Some m \<Rightarrow> m);
          (tid1, hs1) = span_step s otel h hs0
      in case traceparent_step s tid1 hs1 h of
           Inl e \<Rightarrow> Inl e
         | Inr (tid2, hs2, h2) \<Rightarrow>
             (let (hs3, h3) = transaction_step s tid2 hs2 h2
              in Inr (service_step s h3 hs3, h3)))"

text \<open>
  For stating properties of the interceptor: the value of its local variable
  \<^verbatim>\<open>traceId\<close> when the transaction-id step starts (the spec's \<open>observedTraceId\<close>).
\<close>

definition observedTraceId ::
  "settings \<Rightarrow> span_lookup option \<Rightarrow> headers option \<Rightarrow> host \<Rightarrow> error + string option" where
  "observedTraceId s otel req h =
     (let hs0 = (case req of None \<Rightarrow> Map.empty | Some m \<Rightarrow> m);
          (tid1, hs1) = span_step s otel h hs0
      in case traceparent_step s tid1 hs1 h of
           Inl e \<Rightarrow> Inl e
         | Inr (tid2, hs2, h2) \<Rightarrow> Inr tid2)"

text \<open>
  For comparing a request that carries a header with the empty string with the request
  that does not carry it: \<open>or_empty k r\<close> is \<open>r\<close> with the empty string under \<open>k\<close> when
  \<open>r\<close> has no entry there.
\<close>

definition or_empty :: "string \<Rightarrow> headers \<Rightarrow> headers" where
  "or_empty k r = (if r k = None then r(k \<mapsto> []) else r)"

text \<open>
  The constructor installs the interceptor only when some feature needs it; a request of
  a client without it keeps the headers it was given.
\<close>

definition shouldAddInterceptor :: "settings \<Rightarrow> bool" where
  "shouldAddInterceptor s =
     (\<not> disableTransactionId s \<or> enableTraceContext s \<or> truthy (serviceName s))"

type_synonym request_hook =
  "span_lookup option \<Rightarrow> headers option \<Rightarrow> host \<Rightarrow> error + headers \<times> host"

definition request_interceptors :: "BaseAPIServiceConfig \<Rightarrow> request_hook list" where
  "request_interceptors c =
     (let s = resolve c in if shouldAddInterceptor s then [interceptor s] else [])"

fun run_request_hooks ::
  "request_hook list \<Rightarrow> span_lookup option \<Rightarrow> headers option \<Rightarrow> host \<Rightarrow>
   error + headers option \<times> host"
  where
  "run_request_hooks [] otel req h = Inr (req, h)"
| "run_request_hooks (f # fs) otel req h =
     (case f otel req h of
        Inl e \<Rightarrow> Inl e
      | Inr (hs, h') \<Rightarrow> run_request_hooks fs otel (Some hs) h')"

definition outgoing_headers ::
  "BaseAPIServiceConfig \<Rightarrow> span_lookup option \<Rightarrow> headers option \<Rightarrow> host \<Rightarrow>
   error + headers option \<times> host"
  where
  "outgoing_headers c = run_request_hooks (request_interceptors c)"

section \<open>Response transform\<close>

text \<open>
  A response body is a string or some other value. \<^verbatim>\<open>JSON.parse\<close> is a parameter:
  \<open>parse s\<close> is \<open>None\<close> when it throws, else the value parsed, which may itself be a
  string. \<^verbatim>\<open>axiosConfig.transformResponse\<close> is absent, one function or an array.
\<close>

datatype 'v data = Str string | Other 'v

definition defaultTransform :: "(string \<Rightarrow> 'v data option) \<Rightarrow> 'v data \<Rightarrow> 'v data" where
  "defaultTransform parse d =
     (case d of
        Str s \<Rightarrow> (case parse s of Some v \<Rightarrow> v | None \<Rightarrow> Str s)
      | Other v \<Rightarrow> Other v)"

datatype 'f transformResponse = Absent | One 'f | Many "'f list"

definition userTransforms :: "'f transformResponse \<Rightarrow> 'f list" where
  "userTransforms t = (case t of Absent \<Rightarrow> [] | One f \<Rightarrow> [f] | Many fs \<Rightarrow> fs)"

definition defaults_transformResponse ::
  "(string \<Rightarrow> 'v data option) \<Rightarrow> ('v data \<Rightarrow> 'v data) transformResponse \<Rightarrow>
   ('v data \<Rightarrow> 'v data) list" where
  "defaults_transformResponse parse t = defaultTransform parse # userTransforms t"

text \<open>The transport applies the transforms of the list in order, each to the result of the last.\<close>

definition transformData :: "('a \<Rightarrow> 'a) list \<Rightarrow> 'a \<Rightarrow> 'a" where
  "transformData fns d = fold (\<lambda>f x. f x) fns d"

section \<open>Header names without letter case\<close>

text \<open>
  The comparison of header names the spec asks for in its data model: two names are the
  same header when they are equal after mapping \<open>A\<close>..\<open>Z\<close> to \<open>a\<close>..\<open>z\<close>.
\<close>

definition ascii_lower :: "char \<Rightarrow> char" where
  "ascii_lower c =
     (if 65 \<le> (of_char c :: nat) \<and> (of_char c :: nat) \<le> 90
      then char_of ((of_char c :: nat) + 32) else c)"

definition same_header_name :: "string \<Rightarrow> string \<Rightarrow> bool" where
  "same_header_name a b = (map ascii_lower a = map ascii_lower b)"

section \<open>A host for the examples\<close>

definition counting_host :: host where
  "counting_host =
     \<lparr>crypto = Some (\<lambda>i. word_of_nat (17 * i + 3)), math_random = (\<lambda>i. 7 * i),
      drawn = 0, uuid_rng = (\<lambda>i. word_of_nat (29 * i + 5)), uuid_drawn = 0,
      array_extra = 1000,
      prototype_names =
        [''constructor'', ''toString'', ''toLocaleString'', ''valueOf'', ''hasOwnProperty'',
         ''isPrototypeOf'', ''propertyIsEnumerable'', ''__proto__'', ''__defineGetter__'',
         ''__defineSetter__'', ''__lookupGetter__'', ''__lookupSetter__'',
         ''set'', ''get'', ''has'', ''delete'', ''clear'', ''normalize'', ''concat'',
         ''toJSON'']\<rparr>"

section \<open>Hex rendering\<close>

lemma hex_digit_lower: "d < 16 \<Longrightarrow> lower_hex (hex_digit d)"
proof -
  assume "d < 16"
  then have "d \<in> set [0..<16]" by simp
  then show ?thesis
    unfolding hex_digit_def lower_hex_def
    by (simp add: upt_rec numeral_nat) (auto simp: nth_Cons')
qed

lemma byte_hex_digits:
  "byte_hex b = [hex_digit (unat b div 16), hex_digit (unat b mod 16)]"
proof (cases "unat b < 16")
  case True
  then show ?thesis
    by (simp add: byte_hex_def padStart_def toString16.simps [of "unat b"] hex_digit_def)
next
  case False
  have "unat b < 256" using unsigned_less [of b, where ?'a = nat] by simp
  then have "unat b div 16 < 16" by simp
  with False show ?thesis
    by (simp add: byte_hex_def padStart_def toString16.simps [of "unat b"]
        toString16.simps [of "unat b div 16"])
qed

lemma length_byte_hex: "length (byte_hex b) = 2"
  by (simp add: byte_hex_digits)

lemma lower_hex_byte_hex: "list_all lower_hex (byte_hex b)"
proof -
  have "unat b < 256" using unsigned_less [of b, where ?'a = nat] by simp
  then have "unat b div 16 < 16" by simp
  then show ?thesis by (simp add: byte_hex_digits hex_digit_lower)
qed

lemma length_hex_bytes: "length (hex_bytes bs) = 2 * length bs"
  by (induction bs) (simp_all add: hex_bytes_def length_byte_hex)

lemma lower_hex_hex_bytes: "list_all lower_hex (hex_bytes bs)"
  by (induction bs) (simp_all add: hex_bytes_def lower_hex_byte_hex)

lemma hex_bytes_digits:
  "hex_bytes bs = concat (map (\<lambda>b. [hex_digit (unat b div 16), hex_digit (unat b mod 16)]) bs)"
proof -
  have "byte_hex = (\<lambda>b. [hex_digit (unat b div 16), hex_digit (unat b mod 16)])"
    by (rule ext) (rule byte_hex_digits)
  then show ?thesis by (simp add: hex_bytes_def)
qed

section \<open>Drawing random bytes\<close>

lemma length_next_bytes: "length (next_bytes n h) = n"
  by (simp add: next_bytes_def split: option.splits)

lemma next_bytes_drawn:
  "crypto h' = crypto h \<Longrightarrow> math_random h' = math_random h \<Longrightarrow> drawn h' = drawn h \<Longrightarrow>
   next_bytes n h' = next_bytes n h"
  by (simp add: next_bytes_def split: option.splits)

lemma random_bytes_ok:
  "n \<le> 65536 \<Longrightarrow> random_bytes n h = Inr (next_bytes n h, h\<lparr>drawn := drawn h + n\<rparr>)"
  by (simp add: random_bytes_def next_bytes_def array_limit_def split: option.splits)

lemma random_bytes_quota:
  "65536 < n \<Longrightarrow> crypto h = Some g \<Longrightarrow>
   random_bytes n h = Inl (if array_limit h < n then RangeError else QuotaExceededError)"
  by (simp add: random_bytes_def)

lemma random_bytes_int [code]:
  "random_bytes n h =
     (if 65536 + int (array_extra h) < int n then Inl RangeError
      else case crypto h of
             Some g \<Rightarrow>
               if 65536 < int n then Inl QuotaExceededError
               else Inr (map g [drawn h ..< drawn h + n], h\<lparr>drawn := drawn h + n\<rparr>)
           | None \<Rightarrow>
               Inr (map (\<lambda>i. word_of_nat (math_random h i)) [drawn h ..< drawn h + n],
                    h\<lparr>drawn := drawn h + n\<rparr>))"
  by (simp add: random_bytes_def array_limit_def split: option.splits)

lemma randomHex_ok:
  "len div 2 \<le> 65536 \<Longrightarrow>
   randomHex len h =
     Inr (hex_bytes (next_bytes (len div 2) h), h\<lparr>drawn := drawn h + len div 2\<rparr>)"
  by (simp add: randomHex_def random_bytes_ok)

lemma generateTraceparent_ok:
  "generateTraceparent h =
     Inr (\<lparr>traceparent =
             ''00-'' @ hex_bytes (next_bytes 16 h) @ ''-'' @
             hex_bytes (next_bytes 8 (h\<lparr>drawn := drawn h + 16\<rparr>)) @ ''-01'',
           traceId = hex_bytes (next_bytes 16 h)\<rparr>,
          h\<lparr>drawn := drawn h + 24\<rparr>)"
  by (simp add: generateTraceparent_def randomHex_ok)

lemma traceparent_re_parts:
  assumes "length t = 32" "length p = 16" "list_all lower_hex t" "list_all lower_hex p"
  shows "traceparent_re (''00-'' @ t @ ''-'' @ p @ ''-01'')"
  using assms by (simp add: traceparent_re_def)

section \<open>Trace-context values\<close>

text \<open>
  Claim C9. The synthesizer returns for every host, and every value it produces matches
  \<^verbatim>\<open>^00-[0-9a-f]{32}-[0-9a-f]{16}-01$\<close>: version \<open>00\<close>, a trace id of 32 lowercase hex
  characters, a parent id of 16, and the flags \<open>01\<close>, joined by hyphens, whatever the
  host's random source delivers.
\<close>

theorem generateTraceparent_well_formed:
  "(case generateTraceparent h of
      Inr (tr, h') \<Rightarrow> traceparent_re (traceparent tr)
    | Inl e \<Rightarrow> False)"
  unfolding generateTraceparent_ok sum.case prod.case trace.simps
  by (rule traceparent_re_parts)
    (simp_all add: length_hex_bytes length_next_bytes lower_hex_hex_bytes)

theorem generateTraceparent_well_formed_witness:
  "(case generateTraceparent counting_host of
      Inr (tr, h') \<Rightarrow>
        traceparent tr = ''00-031425364758697a8b9cadbecfe0f102-132435465768798a-01'' \<and>
        traceparent_re (traceparent tr)
    | Inl e \<Rightarrow> False)"
proof -
  have "(case generateTraceparent counting_host of
      Inr (tr, h') \<Rightarrow>
        traceparent tr = ''00-031425364758697a8b9cadbecfe0f102-132435465768798a-01''
    | Inl e \<Rightarrow> False)"
    by code_simp
  then show ?thesis
    using generateTraceparent_well_formed [of counting_host]
    by (auto split: sum.splits)
qed

section \<open>The contract of randomHex\<close>

text \<open>
  Claim C4, as amended. The argument of \<open>randomHex\<close> is the number of hex characters,
  not of bytes. For every even \<open>len\<close> up to 131072 it takes the next \<open>len / 2\<close> bytes of
  the host's random source (the secure generator when there is one, else one
  \<^verbatim>\<open>Math.random\<close> draw per byte), moves the source on by as many, and returns each byte
  as two lowercase hex digits, high nibble first: a string of \<open>len\<close> characters. For an
  even \<open>len\<close> above 131072 and a host with a secure generator it throws. The synthesizer
  takes its trace id as \<open>randomHex 32\<close> and its parent id as \<open>randomHex 16\<close>, which
  both return, with 32 and 16 characters.
\<close>

theorem randomHex_contract:
  "(even len \<and> len \<le> 131072 \<longrightarrow>
      randomHex len h =
        Inr (concat (map (\<lambda>b. [hex_digit (unat b div 16), hex_digit (unat b mod 16)])
               (case crypto h of
                  Some g \<Rightarrow> map g [drawn h ..< drawn h + len div 2]
                | None \<Rightarrow> map (\<lambda>i. word_of_nat (math_random h i))
                           [drawn h ..< drawn h + len div 2])),
             h\<lparr>drawn := drawn h + len div 2\<rparr>) \<and>
      (case randomHex len h of
         Inr (x, h') \<Rightarrow> length x = len \<and> list_all lower_hex x
       | Inl e \<Rightarrow> False)) \<and>
   (even len \<and> 131072 < len \<and> crypto h \<noteq> None \<longrightarrow>
      randomHex len h =
        Inl (if array_limit h < len div 2 then RangeError else QuotaExceededError)) \<and>
   (case randomHex 32 h of
      Inr (t, h1) \<Rightarrow>
        (case randomHex 16 h1 of
           Inr (p, h2) \<Rightarrow>
             length t = 32 \<and> length p = 16 \<and>
             (case generateTraceparent h of
                Inr (tr, h3) \<Rightarrow>
                  traceId tr = t \<and> traceparent tr = ''00-'' @ t @ ''-'' @ p @ ''-01''
              | Inl e \<Rightarrow> False)
         | Inl e \<Rightarrow> False)
    | Inl e \<Rightarrow> False)"
proof (intro conjI impI)
  assume a: "even len \<and> len \<le> 131072"
  then have l: "len div 2 \<le> 65536" by arith
  from a have d: "2 * (len div 2) = len" by simp
  show "randomHex len h =
        Inr (concat (map (\<lambda>b. [hex_digit (unat b div 16), hex_digit (unat b mod 16)])
               (case crypto h of
                  Some g \<Rightarrow> map g [drawn h ..< drawn h + len div 2]
                | None \<Rightarrow> map (\<lambda>i. word_of_nat (math_random h i))
                           [drawn h ..< drawn h + len div 2])),
             h\<lparr>drawn := drawn h + len div 2\<rparr>)"
    using l by (simp add: randomHex_ok hex_bytes_digits next_bytes_def)
  show "(case randomHex len h of
         Inr (x, h') \<Rightarrow> length x = len \<and> list_all lower_hex x
       | Inl e \<Rightarrow> False)"
    using l d by (simp add: randomHex_ok length_hex_bytes length_next_bytes lower_hex_hex_bytes)
next
  assume a: "even len \<and> 131072 < len \<and> crypto h \<noteq> None"
  then obtain k where "len = 2 * k" by (auto elim: evenE)
  with a have l: "65536 < len div 2" by simp
  from a obtain g where "crypto h = Some g" by auto
  with l show "randomHex len h =
        Inl (if array_limit h < len div 2 then RangeError else QuotaExceededError)"
    by (simp add: randomHex_def random_bytes_quota)
next
  show "(case randomHex 32 h of
      Inr (t, h1) \<Rightarrow>
        (case randomHex 16 h1 of
           Inr (p, h2) \<Rightarrow>
             length t = 32 \<and> length p = 16 \<and>
             (case generateTraceparent h of
                Inr (tr, h3) \<Rightarrow>
                  traceId tr = t \<and> traceparent tr = ''00-'' @ t @ ''-'' @ p @ ''-01''
              | Inl e \<Rightarrow> False)
         | Inl e \<Rightarrow> False)
    | Inl e \<Rightarrow> False)"
    by (simp add: randomHex_ok generateTraceparent_ok length_hex_bytes length_next_bytes)
qed

theorem randomHex_contract_witness:
  "(case randomHex 32 counting_host of
      Inr (x, h') \<Rightarrow>
        x = ''031425364758697a8b9cadbecfe0f102'' \<and> drawn h' = 16 \<and> length x = 32
    | Inl e \<Rightarrow> False) \<and>
   (case randomHex 131074 counting_host of
      Inr (x, h') \<Rightarrow> False
    | Inl e \<Rightarrow> e = QuotaExceededError)"
proof -
  have c: "crypto counting_host \<noteq> None" "array_limit counting_host = 66536"
    by (simp_all add: counting_host_def array_limit_def)
  have e: "(case randomHex 32 counting_host of
      Inr (x, h') \<Rightarrow> x = ''031425364758697a8b9cadbecfe0f102'' \<and> drawn h' = 16
    | Inl e \<Rightarrow> False)"
    by code_simp
  have 1: "(case randomHex 32 counting_host of
      Inr (x, h') \<Rightarrow>
        x = ''031425364758697a8b9cadbecfe0f102'' \<and> drawn h' = 16 \<and> length x = 32
    | Inl e \<Rightarrow> False)"
    using randomHex_contract [of 32 counting_host] e
    by (auto split: sum.splits)
  have 2: "randomHex 131074 counting_host = Inl QuotaExceededError"
    using randomHex_contract [of 131074 counting_host] c by simp
  show ?thesis
    using 1 by (simp add: 2)
qed

text \<open>
  The claim as stated reads the argument as a byte count. At 16 the code draws 8 bytes and
  returns 16 characters, which is not the 32-character trace id.
\<close>

theorem randomHex_byteLength_counterexample:
  "(case randomHex 16 counting_host of
      Inr (x, h') \<Rightarrow>
        length x = 16 \<and> drawn h' = drawn counting_host + 8 \<and>
        (case generateTraceparent counting_host of
           Inr (tr, g) \<Rightarrow> traceId tr \<noteq> x
         | Inl e \<Rightarrow> False)
    | Inl e \<Rightarrow> False)"
  by code_simp

section \<open>The steps of the interceptor\<close>

lemma truthy_simps [simp]:
  "truthy None = False" "truthy (Some v) = (v \<noteq> [])"
  by (simp_all add: truthy_def)

lemma present_truthy: "truthy (hs k) \<Longrightarrow> present h hs k"
  by (cases "hs k") (simp_all add: present_def)

lemma present_plain: "\<not> inherited h k \<Longrightarrow> present h hs k = truthy (hs k)"
  by (cases "hs k") (simp_all add: present_def)

lemma not_inherited_literal [simp]:
  "\<not> inherited h ''traceparent''" "\<not> inherited h ''X-Trace-ID''"
  "\<not> inherited h ''X-Source-Service''"
  by (simp_all add: inherited_def)

lemma present_literal [simp]:
  "present h hs ''traceparent'' = truthy (hs ''traceparent'')"
  "present h hs ''X-Trace-ID'' = truthy (hs ''X-Trace-ID'')"
  "present h hs ''X-Source-Service'' = truthy (hs ''X-Source-Service'')"
  by (simp_all add: present_plain)

lemma inherited_cong: "prototype_names h' = prototype_names h \<Longrightarrow> inherited h' k = inherited h k"
  by (simp add: inherited_def)

lemma present_cong: "prototype_names h' = prototype_names h \<Longrightarrow> present h' hs k = present h hs k"
  by (simp add: present_def inherited_def split: option.splits)

lemma traceparent_step_eq:
  "traceparent_step s tid hs h =
     Inr (if enableTraceContext s \<and> \<not> truthy (hs ''traceparent'')
          then ((case tid of None \<Rightarrow> Some (hex_bytes (next_bytes 16 h)) | Some t \<Rightarrow> Some t),
                hs(''traceparent'' \<mapsto>
                   ''00-'' @ hex_bytes (next_bytes 16 h) @ ''-'' @
                   hex_bytes (next_bytes 8 (h\<lparr>drawn := drawn h + 16\<rparr>)) @ ''-01''),
                h\<lparr>drawn := drawn h + 24\<rparr>)
          else (tid, hs, h))"
  by (cases tid) (simp_all add: traceparent_step_def generateTraceparent_ok)

lemma traceparent_step_returns:
  obtains tid' hs' h' where "traceparent_step s tid hs h = Inr (tid', hs', h')"
  by (cases "traceparent_step s tid hs h") (auto simp: traceparent_step_eq)

lemma interceptor_steps:
  assumes "span_step s otel h (case req of None \<Rightarrow> Map.empty | Some m \<Rightarrow> m) = (tid1, hs1)"
    and "traceparent_step s tid1 hs1 h = Inr (tid2, hs2, h2)"
    and "transaction_step s tid2 hs2 h2 = (hs3, h3)"
  shows "interceptor s otel req h = Inr (service_step s h3 hs3, h3)"
  using assms by (simp add: interceptor_def)

lemma span_step_keeps: "truthy (hs k) \<Longrightarrow> snd (span_step s otel h hs) k = hs k"
  by (auto simp: span_step_def split: option.splits span_lookup.splits)

lemma traceparent_step_keeps:
  "traceparent_step s tid hs h = Inr (tid', hs', h') \<Longrightarrow> truthy (hs k) \<Longrightarrow> hs' k = hs k"
  by (auto simp: traceparent_step_eq split: if_splits)

lemma transaction_step_keeps:
  "truthy (hs k) \<Longrightarrow> fst (transaction_step s tid hs h) k = hs k"
  by (auto simp: transaction_step_def present_truthy split: prod.splits)

lemma service_step_keeps: "truthy (hs k) \<Longrightarrow> service_step s h hs k = hs k"
  by (auto simp: service_step_def split: option.splits)

section \<open>Headers the caller has set\<close>

text \<open>
  Claim C1, as amended. The interceptor returns, and a header that the request carries
  with a non-empty value has exactly that value afterwards: every write of the interceptor
  is guarded by a truthiness test of the entry it writes. This holds for the four managed
  headers (the configured transaction-id header, \<^verbatim>\<open>traceparent\<close>, \<^verbatim>\<open>X-Trace-ID\<close>,
  \<^verbatim>\<open>X-Source-Service\<close>) and for every other key.
\<close>

theorem interceptor_keeps_nonempty:
  "truthy (hs k) \<Longrightarrow>
   (case interceptor s otel (Some hs) h of
      Inr (r, h') \<Rightarrow> r k = hs k
    | Inl e \<Rightarrow> False)"
proof -
  assume t: "truthy (hs k)"
  obtain tid1 hs1 where a: "span_step s otel h hs = (tid1, hs1)"
    by (cases "span_step s otel h hs")
  obtain tid2 hs2 h2 where b: "traceparent_step s tid1 hs1 h = Inr (tid2, hs2, h2)"
    by (rule traceparent_step_returns)
  obtain hs3 h3 where c: "transaction_step s tid2 hs2 h2 = (hs3, h3)"
    by (cases "transaction_step s tid2 hs2 h2")
  have 1: "hs1 k = hs k" using span_step_keeps [of hs k s otel h] t a by simp
  have 2: "hs2 k = hs k"
    using traceparent_step_keeps [OF b, of k] t 1 by simp
  have 3: "hs3 k = hs k"
    using transaction_step_keeps [of hs2 k s tid2 h2] t 2 c by simp
  have 4: "service_step s h3 hs3 k = hs k"
    using service_step_keeps [of hs3 k s h3] t 3 by simp
  have "interceptor s otel (Some hs) h = Inr (service_step s h3 hs3, h3)"
    by (rule interceptor_steps [OF _ b c]) (simp add: a)
  with 4 show ?thesis by simp
qed

theorem interceptor_keeps_nonempty_witness:
  "truthy ([''traceparent'' \<mapsto> ''00-abc-def-01''] ''traceparent'') \<and>
   (case interceptor
          \<lparr>transactionIdHeader = ''X-Transaction-ID'', disableTransactionId = False,
            enableTraceContext = True, useTraceIdAsTransactionId = False, serviceName = None\<rparr>
          None (Some [''traceparent'' \<mapsto> ''00-abc-def-01'']) counting_host of
      Inr (r, h') \<Rightarrow> r ''traceparent'' = Some ''00-abc-def-01''
    | Inl e \<Rightarrow> False)"
  using interceptor_keeps_nonempty [of "[''traceparent'' \<mapsto> ''00-abc-def-01'']" "''traceparent''"
      "\<lparr>transactionIdHeader = ''X-Transaction-ID'', disableTransactionId = False,
            enableTraceContext = True, useTraceIdAsTransactionId = False, serviceName = None\<rparr>"
      None counting_host]
  by (auto split: sum.splits)

text \<open>
  The claim as stated covers every header that is present. A header present with the
  empty string is falsy for the test \<^verbatim>\<open>!config.headers[...]\<close>, and is overwritten.
\<close>

theorem interceptor_overwrites_empty_counterexample:
  "[''traceparent'' \<mapsto> (''''::string)] ''traceparent'' = Some '''' \<and>
   (case interceptor
          \<lparr>transactionIdHeader = ''X-Transaction-ID'', disableTransactionId = False,
            enableTraceContext = True, useTraceIdAsTransactionId = False, serviceName = None\<rparr>
          None (Some [''traceparent'' \<mapsto> '''']) counting_host of
      Inr (r, h') \<Rightarrow>
        r ''traceparent'' = Some ''00-031425364758697a8b9cadbecfe0f102-132435465768798a-01''
    | Inl e \<Rightarrow> False)"
  by code_simp

section \<open>A client with every feature off\<close>

text \<open>
  Claim C7. When transaction-id injection is disabled, trace context is not enabled and no
  service name is configured, the constructor installs no request interceptor, and the
  headers of every request reach the transport as the caller gave them: nothing is added,
  whatever the tracing runtime and the random sources would have delivered.
\<close>

theorem no_features_no_interceptor:
  "cfg_disableTransactionId c = Some True \<Longrightarrow>
   cfg_enableTraceContext c = None \<or> cfg_enableTraceContext c = Some False \<Longrightarrow>
   cfg_serviceName c = None \<Longrightarrow>
   request_interceptors c = [] \<and> outgoing_headers c otel req h = Inr (req, h)"
  by (auto simp: request_interceptors_def outgoing_headers_def shouldAddInterceptor_def
      resolve_def default_to_def)

theorem no_features_no_interceptor_witness:
  "request_interceptors
     \<lparr>cfg_transactionIdHeader = None, cfg_disableTransactionId = Some True,
      cfg_enableTraceContext = None, cfg_useTraceIdAsTransactionId = Some True,
      cfg_serviceName = None\<rparr> = [] \<and>
   outgoing_headers
     \<lparr>cfg_transactionIdHeader = None, cfg_disableTransactionId = Some True,
      cfg_enableTraceContext = None, cfg_useTraceIdAsTransactionId = Some True,
      cfg_serviceName = None\<rparr>
     (Some (Active_span ''abc'')) (Some [''Accept'' \<mapsto> ''text/plain'']) counting_host
   = Inr (Some [''Accept'' \<mapsto> ''text/plain''], counting_host)"
  using no_features_no_interceptor [of
      "\<lparr>cfg_transactionIdHeader = None, cfg_disableTransactionId = Some True,
      cfg_enableTraceContext = None, cfg_useTraceIdAsTransactionId = Some True,
      cfg_serviceName = None\<rparr>"
      "Some (Active_span ''abc'')" "Some [''Accept'' \<mapsto> ''text/plain'']" counting_host]
  by simp

section \<open>Response normalization\<close>

text \<open>
  Claim C8. A string body that \<^verbatim>\<open>JSON.parse\<close> accepts is replaced by the parsed value; a
  string body on which it throws is returned as it is, and \<open>defaultTransform\<close> returns a
  value in every case; a body that is not a string passes through. The transform list of
  the client is \<open>defaultTransform\<close> alone when the caller gives no transform,
  \<open>defaultTransform\<close> followed by the caller's function when the caller gives one, and
  \<open>defaultTransform\<close> followed by the caller's array, in its order, when the caller gives
  an array. So every transform of the caller is applied, after \<open>defaultTransform\<close>, to
  the result of the one before.
\<close>

theorem response_normalization:
  "(parse s = Some v \<longrightarrow> defaultTransform parse (Str s) = v) \<and>
   (parse s = None \<longrightarrow> defaultTransform parse (Str s) = Str s) \<and>
   defaultTransform parse (Other x) = Other x \<and>
   defaults_transformResponse parse Absent = [defaultTransform parse] \<and>
   defaults_transformResponse parse (One f) = [defaultTransform parse, f] \<and>
   defaults_transformResponse parse (Many fs) = defaultTransform parse # fs \<and>
   transformData (defaults_transformResponse parse Absent) d = defaultTransform parse d \<and>
   transformData (defaults_transformResponse parse (One f)) d = f (defaultTransform parse d) \<and>
   transformData (defaults_transformResponse parse (Many [f, g])) d
     = g (f (defaultTransform parse d)) \<and>
   transformData (defaults_transformResponse parse (Many fs)) d
     = foldl (\<lambda>x t. t x) (defaultTransform parse d) fs"
proof -
  have "fold (\<lambda>t x. t x) fs y = foldl (\<lambda>x t. t x) y fs" for y :: "'a data"
    by (induction fs arbitrary: y) simp_all
  then show ?thesis
    by (simp add: defaultTransform_def defaults_transformResponse_def transformData_def
        userTransforms_def)
qed

theorem response_normalization_witness:
  "defaultTransform (\<lambda>s. if s = ''1'' then Some (Other (1::nat)) else None) (Str ''1'') = Other 1 \<and>
   defaultTransform (\<lambda>s. if s = ''1'' then Some (Other (1::nat)) else None) (Str ''not json'')
     = Str ''not json'' \<and>
   transformData
     (defaults_transformResponse (\<lambda>s. if s = ''1'' then Some (Other (1::nat)) else None)
        (Many [\<lambda>d. case d of Other n \<Rightarrow> Other (Suc n) | Str s \<Rightarrow> Str s,
               \<lambda>d. case d of Other n \<Rightarrow> Other (2 * n) | Str s \<Rightarrow> Str s])) (Str ''1'')
     = Other 4"
  using response_normalization [of "\<lambda>s. if s = ''1'' then Some (Other (1::nat)) else None"
      "''1''" "Other 1" 0 "\<lambda>d. case d of Other n \<Rightarrow> Other (Suc n) | Str s \<Rightarrow> Str s" "[]"
      "Str ''1''" "\<lambda>d. case d of Other n \<Rightarrow> Other (2 * n) | Str s \<Rightarrow> Str s"]
    response_normalization [of "\<lambda>s. if s = ''1'' then Some (Other (1::nat)) else None"
      "''not json''" "Other 1" 0 "\<lambda>d. d" "[]" "Str ''1''" "\<lambda>d. d"]
  by simp

section \<open>Frame and values of the steps\<close>

lemma span_step_other: "k \<noteq> ''X-Trace-ID'' \<Longrightarrow> snd (span_step s otel h hs) k = hs k"
  by (auto simp: span_step_def split: option.splits span_lookup.splits)

lemma traceparent_step_other:
  "traceparent_step s tid hs h = Inr (tid', hs', h') \<Longrightarrow> k \<noteq> ''traceparent'' \<Longrightarrow>
   hs' k = hs k"
  by (auto simp: traceparent_step_eq split: if_splits)

lemma traceparent_step_host:
  "traceparent_step s tid hs h = Inr (tid', hs', h') \<Longrightarrow>
   prototype_names h' = prototype_names h \<and> uuid_rng h' = uuid_rng h \<and>
   uuid_drawn h' = uuid_drawn h"
  by (auto simp: traceparent_step_eq split: if_splits)

lemma transaction_step_other:
  "k \<noteq> transactionIdHeader s \<Longrightarrow> fst (transaction_step s tid hs h) k = hs k"
  by (auto simp: transaction_step_def split: prod.splits)

lemma service_step_other: "k \<noteq> ''X-Source-Service'' \<Longrightarrow> service_step s h hs k = hs k"
  by (auto simp: service_step_def split: option.splits)

lemma span_step_value:
  "snd (span_step s otel h hs) ''X-Trace-ID'' =
     (case otel of
        Some (Active_span t) \<Rightarrow>
          if enableTraceContext s \<and> \<not> truthy (hs ''X-Trace-ID'') then Some t
          else hs ''X-Trace-ID''
      | _ \<Rightarrow> hs ''X-Trace-ID'')"
  by (auto simp: span_step_def split: option.splits span_lookup.splits)

lemma span_step_tid:
  "fst (span_step s otel h hs) = (case otel of Some (Active_span t) \<Rightarrow> Some t | _ \<Rightarrow> None)"
  by (auto simp: span_step_def split: option.splits span_lookup.splits)

lemma traceparent_step_tid:
  "traceparent_step s tid hs h = Inr (tid', hs', h') \<Longrightarrow>
   tid' =
     (case tid of
        Some t \<Rightarrow> Some t
      | None \<Rightarrow> if enableTraceContext s \<and> \<not> truthy (hs ''traceparent'')
                then Some (hex_bytes (next_bytes 16 h)) else None)"
  by (auto simp: traceparent_step_eq split: if_splits option.splits)

lemma traceparent_step_value:
  "traceparent_step s tid hs h = Inr (tid', hs', h') \<Longrightarrow>
   enableTraceContext s \<Longrightarrow> \<not> truthy (hs ''traceparent'') \<Longrightarrow>
   hs' ''traceparent'' =
     Some (''00-'' @ hex_bytes (next_bytes 16 h) @ ''-'' @
           hex_bytes (next_bytes 8 (h\<lparr>drawn := drawn h + 16\<rparr>)) @ ''-01'')"
  by (auto simp: traceparent_step_eq split: if_splits)

lemma transaction_step_value:
  "\<not> disableTransactionId s \<Longrightarrow> \<not> present h hs (transactionIdHeader s) \<Longrightarrow>
   fst (transaction_step s tid hs h) (transactionIdHeader s)
     = Some (fst (transaction_id s tid h))"
  by (auto simp: transaction_step_def split: prod.splits)

lemma transaction_step_host:
  "prototype_names (snd (transaction_step s tid hs h)) = prototype_names h"
  by (auto simp: transaction_step_def transaction_id_def uuidv4_def uuid_random_def
      split: prod.splits option.splits if_splits)

section \<open>The secondary trace-id header\<close>

text \<open>
  Claim C2, as amended. The interceptor writes \<^verbatim>\<open>X-Trace-ID\<close> only inside the branch of
  an active span: when trace context is enabled, the request carries no non-empty
  \<^verbatim>\<open>X-Trace-ID\<close> and the tracing runtime reports an active span, the header is set to
  that span's trace id (which is the observed trace id); in every other case, also when
  \<^verbatim>\<open>traceparent\<close> was synthesized without an active span, the header keeps the value the
  request had. The configured transaction-id header is taken to be another header than
  \<^verbatim>\<open>X-Trace-ID\<close>.
\<close>

theorem secondary_trace_id_from_span_only:
  "transactionIdHeader s \<noteq> ''X-Trace-ID'' \<Longrightarrow>
   (case interceptor s otel (Some hs) h of
      Inr (r, h') \<Rightarrow>
        r ''X-Trace-ID'' =
          (case otel of
             Some (Active_span t) \<Rightarrow>
               if enableTraceContext s \<and> \<not> truthy (hs ''X-Trace-ID'') then Some t
               else hs ''X-Trace-ID''
           | _ \<Rightarrow> hs ''X-Trace-ID'')
    | Inl e \<Rightarrow> False)"
proof -
  assume n: "transactionIdHeader s \<noteq> ''X-Trace-ID''"
  obtain tid1 hs1 where a: "span_step s otel h hs = (tid1, hs1)"
    by (cases "span_step s otel h hs")
  obtain tid2 hs2 h2 where b: "traceparent_step s tid1 hs1 h = Inr (tid2, hs2, h2)"
    by (rule traceparent_step_returns)
  obtain hs3 h3 where c: "transaction_step s tid2 hs2 h2 = (hs3, h3)"
    by (cases "transaction_step s tid2 hs2 h2")
  have i: "interceptor s otel (Some hs) h = Inr (service_step s h3 hs3, h3)"
    by (rule interceptor_steps [OF _ b c]) (simp add: a)
  have "service_step s h3 hs3 ''X-Trace-ID'' = hs3 ''X-Trace-ID''"
    by (rule service_step_other) simp
  also have "\<dots> = hs2 ''X-Trace-ID''"
    using transaction_step_other [of "''X-Trace-ID''" s tid2 hs2 h2] n c by simp
  also have "\<dots> = hs1 ''X-Trace-ID''"
    using traceparent_step_other [OF b, of "''X-Trace-ID''"] by simp
  also have "\<dots> = snd (span_step s otel h hs) ''X-Trace-ID''"
    using a by simp
  finally show ?thesis
    using i by (simp add: span_step_value)
qed

theorem secondary_trace_id_from_span_only_witness:
  "transactionIdHeader
     \<lparr>transactionIdHeader = ''X-Transaction-ID'', disableTransactionId = False,
      enableTraceContext = True, useTraceIdAsTransactionId = False, serviceName = None\<rparr>
     \<noteq> ''X-Trace-ID'' \<and>
   (case interceptor
          \<lparr>transactionIdHeader = ''X-Transaction-ID'', disableTransactionId = False,
            enableTraceContext = True, useTraceIdAsTransactionId = False, serviceName = None\<rparr>
          (Some (Active_span ''4bf92f3577b34da6a3ce929d0e0e4736'')) (Some Map.empty)
          counting_host of
      Inr (r, h') \<Rightarrow> r ''X-Trace-ID'' = Some ''4bf92f3577b34da6a3ce929d0e0e4736''
    | Inl e \<Rightarrow> False)"
  using secondary_trace_id_from_span_only [where
      s = "\<lparr>transactionIdHeader = ''X-Transaction-ID'', disableTransactionId = False,
        enableTraceContext = True, useTraceIdAsTransactionId = False, serviceName = None\<rparr>"
      and otel = "Some (Active_span ''4bf92f3577b34da6a3ce929d0e0e4736'')"
      and hs = Map.empty and h = counting_host]
  by (auto split: sum.splits)

text \<open>
  The claim as stated also sets \<^verbatim>\<open>X-Trace-ID\<close> from the synthesized trace id. With no
  tracing runtime, the trace id is synthesized and observed, and \<^verbatim>\<open>X-Trace-ID\<close> stays
  absent.
\<close>

theorem secondary_trace_id_synthesized_counterexample:
  "observedTraceId
     \<lparr>transactionIdHeader = ''X-Transaction-ID'', disableTransactionId = False,
      enableTraceContext = True, useTraceIdAsTransactionId = False, serviceName = None\<rparr>
     None (Some Map.empty) counting_host = Inr (Some ''031425364758697a8b9cadbecfe0f102'') \<and>
   (case interceptor
          \<lparr>transactionIdHeader = ''X-Transaction-ID'', disableTransactionId = False,
            enableTraceContext = True, useTraceIdAsTransactionId = False, serviceName = None\<rparr>
          None (Some Map.empty) counting_host of
      Inr (r, h') \<Rightarrow>
        r ''traceparent'' = Some ''00-031425364758697a8b9cadbecfe0f102-132435465768798a-01'' \<and>
        r ''X-Trace-ID'' = None
    | Inl e \<Rightarrow> False)"
  by code_simp

section \<open>The shape of generated transaction ids\<close>

lemma byte_cases:
  assumes "list_all (\<lambda>n. P (word_of_nat n :: byte)) [0..<256]"
  shows "P (b :: byte)"
proof -
  have "unat b < 256" using unsigned_less [of b, where ?'a = nat] by simp
  then have "unat b \<in> set [0..<256]" by simp
  with assms have "P (word_of_nat (unat b) :: byte)"
    unfolding list_all_iff by blast
  then show ?thesis by simp
qed

lemma version_nibble: "unat (((b :: byte) AND 0x0f) OR 0x40) div 16 = 4"
  by (rule byte_cases [of _ b]) code_simp

lemma variant_nibble: "unat (((b :: byte) AND 0x3f) OR 0x80) div 16 \<in> {8, 9, 10, 11}"
  by (rule byte_cases [of _ b]) code_simp

lemma byte_hex_two: "\<exists>x y. byte_hex b = [x, y] \<and> lower_hex x \<and> lower_hex y"
  using lower_hex_byte_hex [of b] by (simp add: byte_hex_digits)

lemma byte_hex_version:
  "\<exists>y. byte_hex (((b :: byte) AND 0x0f) OR 0x40) = [CHR ''4'', y] \<and> lower_hex y"
  using lower_hex_byte_hex [of "(b AND 0x0f) OR 0x40"]
  by (simp add: byte_hex_digits version_nibble hex_digit_def)

lemma byte_hex_variant:
  "\<exists>x y. byte_hex (((b :: byte) AND 0x3f) OR 0x80) = [x, y] \<and>
     x \<in> {CHR ''8'', CHR ''9'', CHR ''a'', CHR ''b''} \<and> lower_hex x \<and> lower_hex y"
  using lower_hex_byte_hex [of "(b AND 0x3f) OR 0x80"] variant_nibble [of b]
  by (auto simp: byte_hex_digits hex_digit_def)

lemma list16:
  "length (xs :: 'a list) = 16 \<Longrightarrow>
   \<exists>a0 a1 a2 a3 a4 a5 a6 a7 a8 a9 a10 a11 a12 a13 a14 a15.
     xs = [a0, a1, a2, a3, a4, a5, a6, a7, a8, a9, a10, a11, a12, a13, a14, a15]"
  by (simp add: numeral_eq_Suc length_Suc_conv) blast

lemma uuid_stringify_shape:
  assumes "length rnds = 16"
  shows "uuid_v4_shape (uuid_stringify (uuid_stamp rnds))"
proof -
  obtain a0 a1 a2 a3 a4 a5 a6 a7 a8 a9 a10 a11 a12 a13 a14 a15 where
    r: "rnds = [a0, a1, a2, a3, a4, a5, a6, a7, a8, a9, a10, a11, a12, a13, a14, a15]"
    using list16 [OF assms] by blast
  have s: "uuid_stamp rnds =
      [a0, a1, a2, a3, a4, a5, (a6 AND 0x0f) OR 0x40, a7, (a8 AND 0x3f) OR 0x80, a9,
       a10, a11, a12, a13, a14, a15]"
    by (simp add: r uuid_stamp_def)
  obtain x0 y0 where b0: "byte_hex a0 = [x0, y0]" "lower_hex x0" "lower_hex y0"
    using byte_hex_two by blast
  obtain x1 y1 where b1: "byte_hex a1 = [x1, y1]" "lower_hex x1" "lower_hex y1"
    using byte_hex_two by blast
  obtain x2 y2 where b2: "byte_hex a2 = [x2, y2]" "lower_hex x2" "lower_hex y2"
    using byte_hex_two by blast
  obtain x3 y3 where b3: "byte_hex a3 = [x3, y3]" "lower_hex x3" "lower_hex y3"
    using byte_hex_two by blast
  obtain x4 y4 where b4: "byte_hex a4 = [x4, y4]" "lower_hex x4" "lower_hex y4"
    using byte_hex_two by blast
  obtain x5 y5 where b5: "byte_hex a5 = [x5, y5]" "lower_hex x5" "lower_hex y5"
    using byte_hex_two by blast
  obtain y6 where b6: "byte_hex ((a6 AND 0x0f) OR 0x40) = [CHR ''4'', y6]" "lower_hex y6"
    using byte_hex_version by blast
  obtain x7 y7 where b7: "byte_hex a7 = [x7, y7]" "lower_hex x7" "lower_hex y7"
    using byte_hex_two by blast
  obtain x8 y8 where b8: "byte_hex ((a8 AND 0x3f) OR 0x80) = [x8, y8]"
      "x8 \<in> {CHR ''8'', CHR ''9'', CHR ''a'', CHR ''b''}" "lower_hex y8"
    using byte_hex_variant by blast
  obtain x9 y9 where b9: "byte_hex a9 = [x9, y9]" "lower_hex x9" "lower_hex y9"
    using byte_hex_two by blast
  obtain x10 y10 where b10: "byte_hex a10 = [x10, y10]" "lower_hex x10" "lower_hex y10"
    using byte_hex_two by blast
  obtain x11 y11 where b11: "byte_hex a11 = [x11, y11]" "lower_hex x11" "lower_hex y11"
    using byte_hex_two by blast
  obtain x12 y12 where b12: "byte_hex a12 = [x12, y12]" "lower_hex x12" "lower_hex y12"
    using byte_hex_two by blast
  obtain x13 y13 where b13: "byte_hex a13 = [x13, y13]" "lower_hex x13" "lower_hex y13"
    using byte_hex_two by blast
  obtain x14 y14 where b14: "byte_hex a14 = [x14, y14]" "lower_hex x14" "lower_hex y14"
    using byte_hex_two by blast
  obtain x15 y15 where b15: "byte_hex a15 = [x15, y15]" "lower_hex x15" "lower_hex y15"
    using byte_hex_two by blast
  have "uuid_stringify (uuid_stamp rnds) =
      [x0, y0, x1, y1, x2, y2, x3, y3, CHR ''-'', x4, y4, x5, y5, CHR ''-'',
       CHR ''4'', y6, x7, y7, CHR ''-'', x8, y8, x9, y9, CHR ''-'',
       x10, y10, x11, y11, x12, y12, x13, y13, x14, y14, x15, y15]"
    unfolding s uuid_stringify_def hex_bytes_def
    by (simp add: b0 b1 b2 b3 b4 b5 b6 b7 b8 b9 b10 b11 b12 b13 b14 b15)
  then show ?thesis
    using b0 b1 b2 b3 b4 b5 b6 b7 b8 b9 b10 b11 b12 b13 b14 b15
    by (auto simp: uuid_v4_shape_def)
qed

lemma length_uuid_random: "length (fst (uuid_random h)) = 16"
  by (simp add: uuid_random_def)

lemma uuidv4_eq: "fst (uuidv4 h) = uuid_stringify (uuid_stamp (fst (uuid_random h)))"
  by (simp add: uuidv4_def split: prod.splits)

lemma uuidv4_shape: "uuid_v4_shape (fst (uuidv4 h))"
  by (simp add: uuidv4_eq uuid_stringify_shape length_uuid_random)

section \<open>The transaction-id header\<close>

lemma uuidv4_cong:
  "uuid_rng h' = uuid_rng h \<Longrightarrow> uuid_drawn h' = uuid_drawn h \<Longrightarrow>
   fst (uuidv4 h') = fst (uuidv4 h)"
  by (simp add: uuidv4_eq uuid_random_def)

lemma interceptor_returns:
  obtains r g where "interceptor s otel req h = Inr (r, g)"
proof -
  obtain tid1 hs1 where
    a: "span_step s otel h (case req of None \<Rightarrow> Map.empty | Some m \<Rightarrow> m) = (tid1, hs1)"
    by (cases "span_step s otel h (case req of None \<Rightarrow> Map.empty | Some m \<Rightarrow> m)")
  obtain tid2 hs2 h2 where b: "traceparent_step s tid1 hs1 h = Inr (tid2, hs2, h2)"
    by (rule traceparent_step_returns)
  obtain hs3 h3 where c: "transaction_step s tid2 hs2 h2 = (hs3, h3)"
    by (cases "transaction_step s tid2 hs2 h2")
  have "interceptor s otel req h = Inr (service_step s h3 hs3, h3)"
    by (rule interceptor_steps [OF a b c])
  then show ?thesis by (rule that)
qed

lemma observedTraceId_eq:
  "observedTraceId s otel (Some hs) h =
     Inr (case otel of
            Some (Active_span t) \<Rightarrow> Some t
          | _ \<Rightarrow> if enableTraceContext s \<and> \<not> truthy (hs ''traceparent'')
                 then Some (hex_bytes (next_bytes 16 h)) else None)"
proof -
  obtain tid1 hs1 where a: "span_step s otel h hs = (tid1, hs1)"
    by (cases "span_step s otel h hs")
  obtain tid2 hs2 h2 where b: "traceparent_step s tid1 hs1 h = Inr (tid2, hs2, h2)"
    by (rule traceparent_step_returns)
  have t: "tid1 = (case otel of Some (Active_span t) \<Rightarrow> Some t | _ \<Rightarrow> None)"
    using span_step_tid [of s otel h hs] a by simp
  have "hs1 ''traceparent'' = hs ''traceparent''"
    using span_step_other [of "''traceparent''" s otel h hs] a by simp
  then have "tid2 =
     (case tid1 of
        Some t \<Rightarrow> Some t
      | None \<Rightarrow> if enableTraceContext s \<and> \<not> truthy (hs ''traceparent'')
                then Some (hex_bytes (next_bytes 16 h)) else None)"
    using traceparent_step_tid [OF b] by auto
  moreover have "observedTraceId s otel (Some hs) h = Inr tid2"
    by (simp add: observedTraceId_def a b)
  ultimately show ?thesis
    by (simp add: t split: option.splits span_lookup.splits)
qed

lemma transaction_id_nonempty: "fst (transaction_id s tid h) \<noteq> []"
proof -
  have "length (fst (uuidv4 h)) = 36"
    using uuidv4_shape [of h] by (simp add: uuid_v4_shape_def)
  then have "fst (uuidv4 h) \<noteq> []" by auto
  then show ?thesis
    by (auto simp: transaction_id_def split: option.splits)
qed

lemma interceptor_transaction_id:
  assumes "\<not> disableTransactionId s"
    and "\<not> truthy (hs (transactionIdHeader s))"
    and "transactionIdHeader s \<noteq> ''traceparent''"
    and "transactionIdHeader s \<noteq> ''X-Trace-ID''"
    and "\<not> inherited h (transactionIdHeader s)"
    and "interceptor s otel (Some hs) h = Inr (r, g)"
    and "observedTraceId s otel (Some hs) h = Inr ob"
  shows "r (transactionIdHeader s) =
           Some (case ob of
                   Some t \<Rightarrow> if useTraceIdAsTransactionId s \<and> t \<noteq> [] then t
                             else fst (uuidv4 h)
                 | None \<Rightarrow> fst (uuidv4 h))"
proof -
  obtain tid1 hs1 where a: "span_step s otel h hs = (tid1, hs1)"
    by (cases "span_step s otel h hs")
  obtain tid2 hs2 h2 where b: "traceparent_step s tid1 hs1 h = Inr (tid2, hs2, h2)"
    by (rule traceparent_step_returns)
  obtain hs3 h3 where c: "transaction_step s tid2 hs2 h2 = (hs3, h3)"
    by (cases "transaction_step s tid2 hs2 h2")
  have i: "interceptor s otel (Some hs) h = Inr (service_step s h3 hs3, h3)"
    by (rule interceptor_steps [OF _ b c]) (simp add: a)
  have o: "ob = tid2"
    using assms(7) by (simp add: observedTraceId_def a b)
  have hh: "prototype_names h2 = prototype_names h" "uuid_rng h2 = uuid_rng h"
    "uuid_drawn h2 = uuid_drawn h"
    using traceparent_step_host [OF b] by simp_all
  have u: "fst (uuidv4 h2) = fst (uuidv4 h)"
    by (rule uuidv4_cong) (simp_all add: hh)
  have 1: "hs1 (transactionIdHeader s) = hs (transactionIdHeader s)"
    using span_step_other [of "transactionIdHeader s" s otel h hs] assms(4) a by simp
  have 2: "hs2 (transactionIdHeader s) = hs (transactionIdHeader s)"
    using traceparent_step_other [OF b, of "transactionIdHeader s"] assms(3) 1 by simp
  have "\<not> inherited h2 (transactionIdHeader s)"
    using assms(5) inherited_cong [OF hh(1), of "transactionIdHeader s"] by simp
  then have "\<not> present h2 hs2 (transactionIdHeader s)"
    using assms(2) 2 by (simp add: present_plain)
  then have 3: "hs3 (transactionIdHeader s) = Some (fst (transaction_id s tid2 h2))"
    using transaction_step_value [of s h2 hs2 tid2] assms(1) c by simp
  then have "truthy (hs3 (transactionIdHeader s))"
    by (simp add: transaction_id_nonempty)
  then have "service_step s h3 hs3 (transactionIdHeader s) = hs3 (transactionIdHeader s)"
    by (rule service_step_keeps)
  with 3 i assms(6) have "r (transactionIdHeader s) = Some (fst (transaction_id s tid2 h2))"
    by auto
  moreover have "fst (transaction_id s tid2 h2) =
      (case tid2 of
         Some t \<Rightarrow> if useTraceIdAsTransactionId s \<and> t \<noteq> [] then t else fst (uuidv4 h)
       | None \<Rightarrow> fst (uuidv4 h))"
    by (simp add: transaction_id_def u split: option.splits)
  ultimately show ?thesis
    using o by simp
qed

lemma interceptor_inherited_name:
  assumes "hs k = None" and "inherited h k"
    and "interceptor s otel (Some hs) h = Inr (r, g)"
  shows "r k = None"
proof -
  obtain tid1 hs1 where a: "span_step s otel h hs = (tid1, hs1)"
    by (cases "span_step s otel h hs")
  obtain tid2 hs2 h2 where b: "traceparent_step s tid1 hs1 h = Inr (tid2, hs2, h2)"
    by (rule traceparent_step_returns)
  obtain hs3 h3 where c: "transaction_step s tid2 hs2 h2 = (hs3, h3)"
    by (cases "transaction_step s tid2 hs2 h2")
  have i: "interceptor s otel (Some hs) h = Inr (service_step s h3 hs3, h3)"
    by (rule interceptor_steps [OF _ b c]) (simp add: a)
  from assms(2) have n: "k \<noteq> ''traceparent''" "k \<noteq> ''X-Trace-ID''" "k \<noteq> ''X-Source-Service''"
    by (auto simp: inherited_def)
  have 1: "hs1 k = None"
    using span_step_other [of k s otel h hs] n a assms(1) by simp
  have 2: "hs2 k = None"
    using traceparent_step_other [OF b, of k] n 1 by simp
  have "prototype_names h2 = prototype_names h"
    using traceparent_step_host [OF b] by simp
  then have "inherited h2 k"
    using assms(2) inherited_cong [of h2 h k] by simp
  then have p: "present h2 hs2 k"
    using 2 by (simp add: present_def)
  have 3: "hs3 k = None"
  proof (cases "k = transactionIdHeader s")
    case True
    with p c 2 show ?thesis by (auto simp: transaction_step_def)
  next
    case False
    then show ?thesis
      using transaction_step_other [of k s tid2 hs2 h2] c 2 by simp
  qed
  have "service_step s h3 hs3 k = None"
    using service_step_other [of k s h3 hs3] n 3 by simp
  with i assms(3) show ?thesis by auto
qed

text \<open>
  Claim C5, as amended. When transaction-id injection is not disabled, the request carries
  no non-empty value under the configured transaction-id header, and that header is
  neither \<^verbatim>\<open>traceparent\<close> nor \<^verbatim>\<open>X-Trace-ID\<close> nor a name under which the header object
  inherits a property (\<^verbatim>\<open>constructor\<close>, \<^verbatim>\<open>toString\<close>, ...), the interceptor sets it: to
  the observed trace id when \<open>useTraceIdAsTransactionId\<close> is on and an observed trace id
  is available and non-empty, and otherwise to a fresh \<^verbatim>\<open>uuidv4()\<close>, which has the shape
  \<^verbatim>\<open>xxxxxxxx-xxxx-4xxx-[89ab]xxx-xxxxxxxxxxxx\<close>. The observed trace id is that of the active
  span when there is one, else the trace id synthesized with \<^verbatim>\<open>traceparent\<close>, else none.
  When the configured name is an inherited one and the request has no entry under it, the
  test \<^verbatim>\<open>!config.headers[name]\<close> fails and nothing is set.
\<close>

theorem transaction_id_decision:
  "(\<not> disableTransactionId s \<and> \<not> truthy (hs (transactionIdHeader s)) \<and>
    transactionIdHeader s \<noteq> ''traceparent'' \<and> transactionIdHeader s \<noteq> ''X-Trace-ID'' \<and>
    \<not> inherited h (transactionIdHeader s) \<longrightarrow>
      (case interceptor s otel (Some hs) h of
         Inr (r, h') \<Rightarrow>
           (case observedTraceId s otel (Some hs) h of
              Inr ob \<Rightarrow>
                r (transactionIdHeader s) =
                  Some (case ob of
                          Some t \<Rightarrow> if useTraceIdAsTransactionId s \<and> t \<noteq> [] then t
                                    else fst (uuidv4 h)
                        | None \<Rightarrow> fst (uuidv4 h)) \<and>
                ob =
                  (case otel of
                     Some (Active_span t) \<Rightarrow> Some t
                   | _ \<Rightarrow> if enableTraceContext s \<and> \<not> truthy (hs ''traceparent'')
                          then (case generateTraceparent h of
                                  Inr (tr, g) \<Rightarrow> Some (traceId tr)
                                | Inl e \<Rightarrow> None)
                          else None)
            | Inl e \<Rightarrow> False)
       | Inl e \<Rightarrow> False)) \<and>
   (hs (transactionIdHeader s) = None \<and> inherited h (transactionIdHeader s) \<longrightarrow>
      (case interceptor s otel (Some hs) h of
         Inr (r, h') \<Rightarrow> r (transactionIdHeader s) = None
       | Inl e \<Rightarrow> False)) \<and>
   uuid_v4_shape (fst (uuidv4 h))"
proof (intro conjI impI)
  obtain r g where i: "interceptor s otel (Some hs) h = Inr (r, g)"
    by (rule interceptor_returns)
  obtain ob where o: "observedTraceId s otel (Some hs) h = Inr ob"
    by (simp add: observedTraceId_eq)
  have gt: "(case generateTraceparent h of
              Inr (tr, g) \<Rightarrow> Some (traceId tr)
            | Inl e \<Rightarrow> None) = Some (hex_bytes (next_bytes 16 h))"
    by (simp add: generateTraceparent_ok)
  have ov0: "ob =
      (case otel of
         Some (Active_span t) \<Rightarrow> Some t
       | _ \<Rightarrow> if enableTraceContext s \<and> \<not> truthy (hs ''traceparent'')
              then Some (hex_bytes (next_bytes 16 h)) else None)"
    using o by (simp add: observedTraceId_eq)
  have ov: "ob =
      (case otel of
         Some (Active_span t) \<Rightarrow> Some t
       | _ \<Rightarrow> if enableTraceContext s \<and> \<not> truthy (hs ''traceparent'')
              then (case generateTraceparent h of
                      Inr (tr, g) \<Rightarrow> Some (traceId tr)
                    | Inl e \<Rightarrow> None)
              else None)"
    unfolding gt by (rule ov0)
  {
    assume p: "\<not> disableTransactionId s \<and> \<not> truthy (hs (transactionIdHeader s)) \<and>
      transactionIdHeader s \<noteq> ''traceparent'' \<and> transactionIdHeader s \<noteq> ''X-Trace-ID'' \<and>
      \<not> inherited h (transactionIdHeader s)"
    have "r (transactionIdHeader s) =
        Some (case ob of
                Some t \<Rightarrow> if useTraceIdAsTransactionId s \<and> t \<noteq> [] then t
                          else fst (uuidv4 h)
              | None \<Rightarrow> fst (uuidv4 h))"
      using p i o by (intro interceptor_transaction_id) simp_all
    with ov show "(case interceptor s otel (Some hs) h of
         Inr (r, h') \<Rightarrow>
           (case observedTraceId s otel (Some hs) h of
              Inr ob \<Rightarrow>
                r (transactionIdHeader s) =
                  Some (case ob of
                          Some t \<Rightarrow> if useTraceIdAsTransactionId s \<and> t \<noteq> [] then t
                                    else fst (uuidv4 h)
                        | None \<Rightarrow> fst (uuidv4 h)) \<and>
                ob =
                  (case otel of
                     Some (Active_span t) \<Rightarrow> Some t
                   | _ \<Rightarrow> if enableTraceContext s \<and> \<not> truthy (hs ''traceparent'')
                          then (case generateTraceparent h of
                                  Inr (tr, g) \<Rightarrow> Some (traceId tr)
                                | Inl e \<Rightarrow> None)
                          else None)
            | Inl e \<Rightarrow> False)
       | Inl e \<Rightarrow> False)"
      by (simp only: i o sum.case prod.case simp_thms)
  }
  {
    assume p: "hs (transactionIdHeader s) = None \<and> inherited h (transactionIdHeader s)"
    have "r (transactionIdHeader s) = None"
      using p i by (intro interceptor_inherited_name [of hs _ h s otel r g]) simp_all
    then show "(case interceptor s otel (Some hs) h of
         Inr (r, h') \<Rightarrow> r (transactionIdHeader s) = None
       | Inl e \<Rightarrow> False)"
      by (simp add: i)
  }
  show "uuid_v4_shape (fst (uuidv4 h))"
    by (rule uuidv4_shape)
qed

theorem transaction_id_decision_witness:
  "(case interceptor
          \<lparr>transactionIdHeader = ''X-Transaction-ID'', disableTransactionId = False,
            enableTraceContext = True, useTraceIdAsTransactionId = True, serviceName = None\<rparr>
          None (Some Map.empty) counting_host of
      Inr (r, h') \<Rightarrow> r ''X-Transaction-ID'' = Some ''031425364758697a8b9cadbecfe0f102''
    | Inl e \<Rightarrow> False) \<and>
   (case interceptor
          \<lparr>transactionIdHeader = ''X-Transaction-ID'', disableTransactionId = False,
            enableTraceContext = False, useTraceIdAsTransactionId = True, serviceName = None\<rparr>
          None (Some Map.empty) counting_host of
      Inr (r, h') \<Rightarrow> r ''X-Transaction-ID'' = Some ''05223f5c-7996-43d0-ad0a-2744617e9bb8''
    | Inl e \<Rightarrow> False) \<and>
   (case interceptor
          \<lparr>transactionIdHeader = ''constructor'', disableTransactionId = False,
            enableTraceContext = False, useTraceIdAsTransactionId = True, serviceName = None\<rparr>
          None (Some Map.empty) counting_host of
      Inr (r, h') \<Rightarrow> r ''constructor'' = None
    | Inl e \<Rightarrow> False) \<and>
   uuid_v4_shape ''05223f5c-7996-43d0-ad0a-2744617e9bb8''"
proof -
  define S where "S =
          \<lparr>transactionIdHeader = ''X-Transaction-ID'', disableTransactionId = False,
            enableTraceContext = True, useTraceIdAsTransactionId = True, serviceName = None\<rparr>"
  define T where "T =
          \<lparr>transactionIdHeader = ''X-Transaction-ID'', disableTransactionId = False,
            enableTraceContext = False, useTraceIdAsTransactionId = True, serviceName = None\<rparr>"
  define C where "C =
          \<lparr>transactionIdHeader = ''constructor'', disableTransactionId = False,
            enableTraceContext = False, useTraceIdAsTransactionId = True, serviceName = None\<rparr>"
  define hs :: headers where "hs = Map.empty"
  have s: "\<not> disableTransactionId S" "transactionIdHeader S = ''X-Transaction-ID''"
    "useTraceIdAsTransactionId S"
    by (simp_all add: S_def)
  have t: "\<not> disableTransactionId T" "transactionIdHeader T = ''X-Transaction-ID''"
    by (simp_all add: T_def)
  have c: "transactionIdHeader C = ''constructor''"
    by (simp add: C_def)
  have e: "hs ''X-Transaction-ID'' = None" "hs ''constructor'' = None"
    by (simp_all add: hs_def)
  have n: "\<not> inherited counting_host ''X-Transaction-ID''"
    "inherited counting_host ''constructor''"
    by (simp_all add: inherited_def counting_host_def)
  have os: "observedTraceId S None (Some hs) counting_host
      = Inr (Some ''031425364758697a8b9cadbecfe0f102'')"
    unfolding S_def hs_def by code_simp
  have ot: "observedTraceId T None (Some hs) counting_host = Inr None"
    unfolding T_def hs_def by code_simp
  have u: "fst (uuidv4 counting_host) = ''05223f5c-7996-43d0-ad0a-2744617e9bb8''"
    by code_simp
  have 1: "(case interceptor S None (Some hs) counting_host of
      Inr (r, h') \<Rightarrow> r ''X-Transaction-ID'' = Some ''031425364758697a8b9cadbecfe0f102''
    | Inl e \<Rightarrow> False)"
    using transaction_id_decision [where s = S and hs = hs and h = counting_host and otel = None]
      s e n os
    by (auto split: sum.splits)
  have 2: "(case interceptor T None (Some hs) counting_host of
      Inr (r, h') \<Rightarrow> r ''X-Transaction-ID'' = Some ''05223f5c-7996-43d0-ad0a-2744617e9bb8''
    | Inl e \<Rightarrow> False)"
    using transaction_id_decision [where s = T and hs = hs and h = counting_host and otel = None]
      t e n ot u
    by (auto split: sum.splits)
  have 3: "(case interceptor C None (Some hs) counting_host of
      Inr (r, h') \<Rightarrow> r ''constructor'' = None
    | Inl e \<Rightarrow> False)"
    using transaction_id_decision [where s = C and hs = hs and h = counting_host and otel = None]
      c e n
    by (auto split: sum.splits)
  have 4: "uuid_v4_shape ''05223f5c-7996-43d0-ad0a-2744617e9bb8''"
    using transaction_id_decision [where s = T and hs = hs and h = counting_host and otel = None]
      u
    by simp
  from 1 2 3 4 show ?thesis
    unfolding S_def T_def C_def hs_def by blast
qed

text \<open>
  The claim as stated holds for every configured header name. When the transaction-id
  header is configured to be \<^verbatim>\<open>traceparent\<close> and trace context is enabled, the header is
  absent from the request, is filled by the trace-context step, and the transaction-id
  step then finds it present: it ends as the trace-context value, which is neither the
  observed trace id nor of the UUID shape.
\<close>

theorem transaction_id_name_clash_counterexample:
  "\<not> disableTransactionId
       \<lparr>transactionIdHeader = ''traceparent'', disableTransactionId = False,
        enableTraceContext = True, useTraceIdAsTransactionId = True, serviceName = None\<rparr> \<and>
   (Map.empty :: headers) ''traceparent'' = None \<and>
   observedTraceId
     \<lparr>transactionIdHeader = ''traceparent'', disableTransactionId = False,
      enableTraceContext = True, useTraceIdAsTransactionId = True, serviceName = None\<rparr>
     None (Some Map.empty) counting_host = Inr (Some ''031425364758697a8b9cadbecfe0f102'') \<and>
   (case interceptor
          \<lparr>transactionIdHeader = ''traceparent'', disableTransactionId = False,
            enableTraceContext = True, useTraceIdAsTransactionId = True, serviceName = None\<rparr>
          None (Some Map.empty) counting_host of
      Inr (r, h') \<Rightarrow>
        r ''traceparent'' = Some ''00-031425364758697a8b9cadbecfe0f102-132435465768798a-01''
    | Inl e \<Rightarrow> False) \<and>
   \<not> uuid_v4_shape ''00-031425364758697a8b9cadbecfe0f102-132435465768798a-01''"
  by code_simp

section \<open>Header names in another letter case\<close>

text \<open>
  Claim C6. The claim is that the check whether a managed header already exists ignores
  letter case, so that a request carrying \<^verbatim>\<open>Traceparent\<close> counts as carrying
  \<^verbatim>\<open>traceparent\<close> and gets none injected. The interceptor does not do this. It is run
  here on a client with trace context enabled and a request whose only header is
  \<^verbatim>\<open>Traceparent\<close>, the same header name once letter case is ignored: it reads the exact
  key \<^verbatim>\<open>traceparent\<close>, finds nothing, and adds a generated \<^verbatim>\<open>traceparent\<close> to the
  caller's \<^verbatim>\<open>Traceparent\<close>.
\<close>

theorem existence_check_letter_case_failing_input:
  "same_header_name ''Traceparent'' ''traceparent'' \<and>
   [''Traceparent'' \<mapsto> ''00-abc-def-01''] ''Traceparent'' = Some ''00-abc-def-01'' \<and>
   (case interceptor
          \<lparr>transactionIdHeader = ''X-Transaction-ID'', disableTransactionId = True,
            enableTraceContext = True, useTraceIdAsTransactionId = False, serviceName = None\<rparr>
          None (Some [''Traceparent'' \<mapsto> ''00-abc-def-01'']) counting_host of
      Inr (r, h') \<Rightarrow>
        r ''traceparent'' = Some ''00-031425364758697a8b9cadbecfe0f102-132435465768798a-01'' \<and>
        r ''Traceparent'' = Some ''00-abc-def-01''
    | Inl e \<Rightarrow> False)"
  by code_simp

section \<open>Headers set to the empty string\<close>

lemma or_empty_apply: "or_empty k r j = (if j = k \<and> r k = None then Some [] else r j)"
  by (simp add: or_empty_def)

lemma truthy_or_empty [simp]: "truthy (or_empty k r j) = truthy (r j)"
  by (simp add: or_empty_apply)

lemma or_empty_upd [simp]: "(or_empty k r)(j \<mapsto> v) = or_empty k (r(j \<mapsto> v))"
  by (auto simp: or_empty_def fun_eq_iff)

lemma present_or_empty:
  "\<not> inherited h k \<Longrightarrow> present h (or_empty k r) j = present h r j"
  by (cases "r j") (auto simp: present_def or_empty_apply)

lemma span_step_or_empty:
  "span_step s otel h (or_empty k r) =
     (fst (span_step s otel h r), or_empty k (snd (span_step s otel h r)))"
  by (auto simp: span_step_def split: option.splits span_lookup.splits)

lemma traceparent_step_or_empty:
  "traceparent_step s tid r h = Inr (tid', r', h') \<Longrightarrow>
   traceparent_step s tid (or_empty k r) h = Inr (tid', or_empty k r', h')"
  by (auto simp: traceparent_step_eq split: if_splits)

lemma transaction_step_or_empty:
  "\<not> inherited h k \<Longrightarrow>
   transaction_step s tid (or_empty k r) h =
     (or_empty k (fst (transaction_step s tid r h)), snd (transaction_step s tid r h))"
  by (simp add: transaction_step_def present_or_empty split: prod.splits)

lemma service_step_or_empty:
  "service_step s h (or_empty k r) = or_empty k (service_step s h r)"
  by (simp add: service_step_def split: option.splits)

lemma interceptor_or_empty:
  assumes "\<not> inherited h k" and "interceptor s otel (Some r) h = Inr (r', g)"
  shows "interceptor s otel (Some (or_empty k r)) h = Inr (or_empty k r', g)"
proof -
  obtain tid1 hs1 where a: "span_step s otel h r = (tid1, hs1)"
    by (cases "span_step s otel h r")
  obtain tid2 hs2 h2 where b: "traceparent_step s tid1 hs1 h = Inr (tid2, hs2, h2)"
    by (rule traceparent_step_returns)
  obtain hs3 h3 where c: "transaction_step s tid2 hs2 h2 = (hs3, h3)"
    by (cases "transaction_step s tid2 hs2 h2")
  have i: "interceptor s otel (Some r) h = Inr (service_step s h3 hs3, h3)"
    by (rule interceptor_steps [OF _ b c]) (simp add: a)
  have "prototype_names h2 = prototype_names h"
    using traceparent_step_host [OF b] by simp
  then have n: "\<not> inherited h2 k"
    using assms(1) inherited_cong [of h2 h k] by simp
  have a': "span_step s otel h (or_empty k r) = (tid1, or_empty k hs1)"
    by (simp add: span_step_or_empty a)
  have b': "traceparent_step s tid1 (or_empty k hs1) h = Inr (tid2, or_empty k hs2, h2)"
    by (rule traceparent_step_or_empty [OF b])
  have c': "transaction_step s tid2 (or_empty k hs2) h2 = (or_empty k hs3, h3)"
    by (simp add: transaction_step_or_empty [OF n] c)
  have "interceptor s otel (Some (or_empty k r)) h
      = Inr (service_step s h3 (or_empty k hs3), h3)"
    by (rule interceptor_steps [OF _ b' c']) (simp add: a')
  then show ?thesis
    using i assms(2) by (simp add: service_step_or_empty)
qed

lemma span_step_dom: "hs k \<noteq> None \<Longrightarrow> snd (span_step s otel h hs) k \<noteq> None"
  by (auto simp: span_step_def split: option.splits span_lookup.splits)

lemma traceparent_step_dom:
  "traceparent_step s tid hs h = Inr (tid', hs', h') \<Longrightarrow> hs k \<noteq> None \<Longrightarrow> hs' k \<noteq> None"
  by (auto simp: traceparent_step_eq split: if_splits)

lemma span_step_truthy:
  "enableTraceContext s \<Longrightarrow> t \<noteq> [] \<Longrightarrow>
   truthy (snd (span_step s (Some (Active_span t)) h hs) ''X-Trace-ID'')"
  by (simp add: span_step_def)

lemma traceparent_step_truthy:
  "traceparent_step s tid hs h = Inr (tid', hs', h') \<Longrightarrow> enableTraceContext s \<Longrightarrow>
   truthy (hs' ''traceparent'')"
  by (auto simp: traceparent_step_eq split: if_splits)

lemma transaction_step_truthy:
  "\<not> disableTransactionId s \<Longrightarrow> hs (transactionIdHeader s) \<noteq> None \<Longrightarrow>
   truthy (fst (transaction_step s tid hs h) (transactionIdHeader s))"
  using transaction_id_nonempty [of s tid h]
  by (auto simp: transaction_step_def present_def split: prod.splits)

lemma service_step_truthy:
  "truthy (serviceName s) \<Longrightarrow> truthy (service_step s h hs ''X-Source-Service'')"
  by (auto simp: service_step_def split: option.splits)

lemma interceptor_fills:
  assumes "hs k \<noteq> None"
    and "(k = transactionIdHeader s \<and> \<not> disableTransactionId s) \<or>
         (k = ''traceparent'' \<and> enableTraceContext s) \<or>
         (k = ''X-Source-Service'' \<and> truthy (serviceName s)) \<or>
         (k = ''X-Trace-ID'' \<and> enableTraceContext s \<and>
            (case otel of Some (Active_span t) \<Rightarrow> t \<noteq> [] | _ \<Rightarrow> False))"
    and "interceptor s otel (Some hs) h = Inr (r, g)"
  shows "truthy (r k)"
proof -
  obtain tid1 hs1 where a: "span_step s otel h hs = (tid1, hs1)"
    by (cases "span_step s otel h hs")
  obtain tid2 hs2 h2 where b: "traceparent_step s tid1 hs1 h = Inr (tid2, hs2, h2)"
    by (rule traceparent_step_returns)
  obtain hs3 h3 where c: "transaction_step s tid2 hs2 h2 = (hs3, h3)"
    by (cases "transaction_step s tid2 hs2 h2")
  have i: "interceptor s otel (Some hs) h = Inr (service_step s h3 hs3, h3)"
    by (rule interceptor_steps [OF _ b c]) (simp add: a)
  have d1: "hs1 k \<noteq> None"
    using span_step_dom [of hs k s otel h] assms(1) a by simp
  have d2: "hs2 k \<noteq> None"
    using traceparent_step_dom [OF b, of k] d1 by simp
  have k2: "truthy (hs1 k) \<Longrightarrow> truthy (hs2 k)"
    using traceparent_step_keeps [OF b, of k] by simp
  have k3: "truthy (hs2 k) \<Longrightarrow> truthy (hs3 k)"
    using transaction_step_keeps [of hs2 k s tid2 h2] c by simp
  have k4: "truthy (hs3 k) \<Longrightarrow> truthy (service_step s h3 hs3 k)"
    using service_step_keeps [of hs3 k s h3] by simp
  from assms(2) consider
    (txn) "k = transactionIdHeader s" "\<not> disableTransactionId s"
    | (tp) "k = ''traceparent''" "enableTraceContext s"
    | (svc) "k = ''X-Source-Service''" "truthy (serviceName s)"
    | (xt) t where "k = ''X-Trace-ID''" "enableTraceContext s" "otel = Some (Active_span t)" "t \<noteq> []"
    by (auto split: option.splits span_lookup.splits)
  then have "truthy (service_step s h3 hs3 k)"
  proof cases
    case txn
    then have "truthy (hs3 k)"
      using transaction_step_truthy [of s hs2 tid2 h2] d2 c by simp
    then show ?thesis by (rule k4)
  next
    case tp
    then have "truthy (hs2 k)"
      using traceparent_step_truthy [OF b] by simp
    then show ?thesis using k3 k4 by blast
  next
    case svc
    then show ?thesis by (simp add: service_step_truthy)
  next
    case xt
    then have "truthy (hs1 k)"
      using span_step_truthy [of s t h hs] a by simp
    then show ?thesis using k2 k3 k4 by blast
  qed
  with i assms(3) show ?thesis by auto
qed

lemma interceptor_trace_id_header:
  assumes "transactionIdHeader s \<noteq> ''X-Trace-ID''"
    and "interceptor s otel (Some hs) h = Inr (r, g)"
  shows "r ''X-Trace-ID'' =
          (case otel of
             Some (Active_span t) \<Rightarrow>
               if enableTraceContext s \<and> \<not> truthy (hs ''X-Trace-ID'') then Some t
               else hs ''X-Trace-ID''
           | _ \<Rightarrow> hs ''X-Trace-ID'')"
proof -
  obtain tid1 hs1 where a: "span_step s otel h hs = (tid1, hs1)"
    by (cases "span_step s otel h hs")
  obtain tid2 hs2 h2 where b: "traceparent_step s tid1 hs1 h = Inr (tid2, hs2, h2)"
    by (rule traceparent_step_returns)
  obtain hs3 h3 where c: "transaction_step s tid2 hs2 h2 = (hs3, h3)"
    by (cases "transaction_step s tid2 hs2 h2")
  have i: "interceptor s otel (Some hs) h = Inr (service_step s h3 hs3, h3)"
    by (rule interceptor_steps [OF _ b c]) (simp add: a)
  have "service_step s h3 hs3 ''X-Trace-ID'' = hs3 ''X-Trace-ID''"
    by (rule service_step_other) simp
  also have "\<dots> = hs2 ''X-Trace-ID''"
    using transaction_step_other [of "''X-Trace-ID''" s tid2 hs2 h2] assms(1) c by simp
  also have "\<dots> = hs1 ''X-Trace-ID''"
    using traceparent_step_other [OF b, of "''X-Trace-ID''"] by simp
  also have "\<dots> = snd (span_step s otel h hs) ''X-Trace-ID''"
    using a by simp
  finally show ?thesis
    using i assms(2) by (auto simp: span_step_value)
qed

text \<open>
  Claim C10, as amended. Let the request carry a header with the empty string. The
  interceptor returns, and:
  \<^item> unless the name is one under which the header object inherits a property, the
    header is treated as absent: the interceptor does what it does on the same request
    without that header, the empty entry staying only where nothing is injected;
  \<^item> the empty value is replaced by a non-empty injected one when the feature of the
    header is on: injection not disabled for the transaction-id header, trace context
    enabled for \<^verbatim>\<open>traceparent\<close>, a non-empty service name for \<^verbatim>\<open>X-Source-Service\<close>,
    and, for \<^verbatim>\<open>X-Trace-ID\<close>, trace context enabled together with an active span whose
    trace id is not empty;
  \<^item> when the transaction-id header is another header than \<^verbatim>\<open>X-Trace-ID\<close>, an empty
    \<^verbatim>\<open>X-Trace-ID\<close> becomes the trace id of the active span if trace context is enabled
    and there is such a span, and stays empty in every other case.
\<close>

theorem empty_header_counts_as_absent:
  assumes "hs k = Some []"
  shows "(case interceptor s otel (Some hs) h of
            Inr (r, h') \<Rightarrow>
              (\<not> inherited h k \<longrightarrow>
                 (case interceptor s otel (Some (hs(k := None))) h of
                    Inr (r0, h0) \<Rightarrow> r = or_empty k r0 \<and> h' = h0
                  | Inl e \<Rightarrow> False)) \<and>
              ((k = transactionIdHeader s \<and> \<not> disableTransactionId s) \<or>
               (k = ''traceparent'' \<and> enableTraceContext s) \<or>
               (k = ''X-Source-Service'' \<and> truthy (serviceName s)) \<or>
               (k = ''X-Trace-ID'' \<and> enableTraceContext s \<and>
                  (case otel of Some (Active_span t) \<Rightarrow> t \<noteq> [] | _ \<Rightarrow> False))
               \<longrightarrow> truthy (r k)) \<and>
              (k = ''X-Trace-ID'' \<and> transactionIdHeader s \<noteq> ''X-Trace-ID'' \<longrightarrow>
                 r k = (case otel of
                          Some (Active_span t) \<Rightarrow> if enableTraceContext s then Some t else Some []
                        | _ \<Rightarrow> Some []))
          | Inl e \<Rightarrow> False)"
proof -
  obtain r g where i: "interceptor s otel (Some hs) h = Inr (r, g)"
    by (rule interceptor_returns)
  obtain r0 g0 where i0: "interceptor s otel (Some (hs(k := None))) h = Inr (r0, g0)"
    by (rule interceptor_returns)
  have e: "hs = or_empty k (hs(k := None))"
    using assms by (auto simp: or_empty_def fun_eq_iff)
  have 1: "\<not> inherited h k \<longrightarrow> r = or_empty k r0 \<and> g = g0"
  proof
    assume n: "\<not> inherited h k"
    have "interceptor s otel (Some (or_empty k (hs(k := None)))) h = Inr (or_empty k r0, g0)"
      by (rule interceptor_or_empty [OF n i0])
    with e i show "r = or_empty k r0 \<and> g = g0"
      by simp
  qed
  have 2: "(k = transactionIdHeader s \<and> \<not> disableTransactionId s) \<or>
           (k = ''traceparent'' \<and> enableTraceContext s) \<or>
           (k = ''X-Source-Service'' \<and> truthy (serviceName s)) \<or>
           (k = ''X-Trace-ID'' \<and> enableTraceContext s \<and>
              (case otel of Some (Active_span t) \<Rightarrow> t \<noteq> [] | _ \<Rightarrow> False))
           \<longrightarrow> truthy (r k)"
  proof
    assume "(k = transactionIdHeader s \<and> \<not> disableTransactionId s) \<or>
           (k = ''traceparent'' \<and> enableTraceContext s) \<or>
           (k = ''X-Source-Service'' \<and> truthy (serviceName s)) \<or>
           (k = ''X-Trace-ID'' \<and> enableTraceContext s \<and>
              (case otel of Some (Active_span t) \<Rightarrow> t \<noteq> [] | _ \<Rightarrow> False))"
    then show "truthy (r k)"
      using assms i by (intro interceptor_fills [of hs k s otel h r g]) simp_all
  qed
  have 3: "k = ''X-Trace-ID'' \<and> transactionIdHeader s \<noteq> ''X-Trace-ID'' \<longrightarrow>
      r k = (case otel of
               Some (Active_span t) \<Rightarrow> if enableTraceContext s then Some t else Some []
             | _ \<Rightarrow> Some [])"
  proof
    assume p: "k = ''X-Trace-ID'' \<and> transactionIdHeader s \<noteq> ''X-Trace-ID''"
    then have "r ''X-Trace-ID'' =
          (case otel of
             Some (Active_span t) \<Rightarrow>
               if enableTraceContext s \<and> \<not> truthy (hs ''X-Trace-ID'') then Some t
               else hs ''X-Trace-ID''
           | _ \<Rightarrow> hs ''X-Trace-ID'')"
      using i by (intro interceptor_trace_id_header [of s otel hs h r g]) simp_all
    with p assms show "r k = (case otel of
               Some (Active_span t) \<Rightarrow> if enableTraceContext s then Some t else Some []
             | _ \<Rightarrow> Some [])"
      by (auto split: option.splits span_lookup.splits)
  qed
  from 1 2 3 show ?thesis
    by (simp only: i i0 sum.case prod.case simp_thms)
qed

theorem empty_header_counts_as_absent_witness:
  "[''traceparent'' \<mapsto> (''''::string)] ''traceparent'' = Some '''' \<and>
   (case interceptor
          \<lparr>transactionIdHeader = ''X-Transaction-ID'', disableTransactionId = False,
            enableTraceContext = True, useTraceIdAsTransactionId = False, serviceName = None\<rparr>
          None (Some [''traceparent'' \<mapsto> '''']) counting_host of
      Inr (r, h') \<Rightarrow>
        truthy (r ''traceparent'') \<and>
        r ''traceparent'' = Some ''00-031425364758697a8b9cadbecfe0f102-132435465768798a-01'' \<and>
        r ''X-Transaction-ID'' = Some ''05223f5c-7996-43d0-ad0a-2744617e9bb8''
    | Inl e \<Rightarrow> False) \<and>
   (case interceptor
          \<lparr>transactionIdHeader = ''X-Transaction-ID'', disableTransactionId = False,
            enableTraceContext = True, useTraceIdAsTransactionId = False, serviceName = None\<rparr>
          (Some (Active_span ''4bf92f3577b34da6a3ce929d0e0e4736''))
          (Some [''X-Trace-ID'' \<mapsto> '''']) counting_host of
      Inr (r, h') \<Rightarrow> r ''X-Trace-ID'' = Some ''4bf92f3577b34da6a3ce929d0e0e4736''
    | Inl e \<Rightarrow> False) \<and>
   (case interceptor
          \<lparr>transactionIdHeader = ''X-Transaction-ID'', disableTransactionId = False,
            enableTraceContext = True, useTraceIdAsTransactionId = False, serviceName = None\<rparr>
          (Some No_span) (Some [''X-Trace-ID'' \<mapsto> '''']) counting_host of
      Inr (r, h') \<Rightarrow> r ''X-Trace-ID'' = Some ''''
    | Inl e \<Rightarrow> False)"
proof -
  define S where "S =
          \<lparr>transactionIdHeader = ''X-Transaction-ID'', disableTransactionId = False,
            enableTraceContext = True, useTraceIdAsTransactionId = False, serviceName = None\<rparr>"
  define hs :: headers where "hs = [''traceparent'' \<mapsto> '''']"
  define hx :: headers where "hx = [''X-Trace-ID'' \<mapsto> '''']"
  define sp where "sp = Some (Active_span ''4bf92f3577b34da6a3ce929d0e0e4736'')"
  have v: "hs ''traceparent'' = Some []" "hx ''X-Trace-ID'' = Some []"
    by (simp_all add: hs_def hx_def)
  have e: "enableTraceContext S" "transactionIdHeader S \<noteq> ''X-Trace-ID''"
    by (simp_all add: S_def)
  have n: "\<not> inherited counting_host ''traceparent''"
    by simp
  have 1: "(case interceptor S None (Some hs) counting_host of
      Inr (r, h') \<Rightarrow>
        truthy (r ''traceparent'') \<and>
        r ''traceparent'' = Some ''00-031425364758697a8b9cadbecfe0f102-132435465768798a-01'' \<and>
        r ''X-Transaction-ID'' = Some ''05223f5c-7996-43d0-ad0a-2744617e9bb8''
    | Inl e \<Rightarrow> False)"
  proof -
    have f: "(case interceptor S None (Some (hs(''traceparent'' := None))) counting_host of
        Inr (r0, h0) \<Rightarrow>
          r0 ''traceparent''
            = Some ''00-031425364758697a8b9cadbecfe0f102-132435465768798a-01'' \<and>
          r0 ''X-Transaction-ID'' = Some ''05223f5c-7996-43d0-ad0a-2744617e9bb8''
      | Inl e \<Rightarrow> False)"
      unfolding S_def hs_def by code_simp
    obtain r g where i: "interceptor S None (Some hs) counting_host = Inr (r, g)"
      by (rule interceptor_returns)
    obtain r0 g0 where
      i0: "interceptor S None (Some (hs(''traceparent'' := None))) counting_host = Inr (r0, g0)"
      by (rule interceptor_returns)
    from f have f0: "r0 ''traceparent''
        = Some ''00-031425364758697a8b9cadbecfe0f102-132435465768798a-01''"
      "r0 ''X-Transaction-ID'' = Some ''05223f5c-7996-43d0-ad0a-2744617e9bb8''"
      by (simp_all add: i0)
    have "truthy (r ''traceparent'') \<and> r = or_empty ''traceparent'' r0"
      using empty_header_counts_as_absent [where hs = hs and k = "''traceparent''" and s = S
          and otel = None and h = counting_host] v e n
      unfolding i i0 sum.case prod.case by blast
    then have "truthy (r ''traceparent'') \<and>
        r ''traceparent'' = Some ''00-031425364758697a8b9cadbecfe0f102-132435465768798a-01'' \<and>
        r ''X-Transaction-ID'' = Some ''05223f5c-7996-43d0-ad0a-2744617e9bb8''"
      using f0 by (simp add: or_empty_def)
    then show ?thesis
      unfolding i sum.case prod.case by blast
  qed
  have 2: "(case interceptor S sp (Some hx) counting_host of
      Inr (r, h') \<Rightarrow> r ''X-Trace-ID'' = Some ''4bf92f3577b34da6a3ce929d0e0e4736''
    | Inl e \<Rightarrow> False)"
  proof -
    obtain r g where i: "interceptor S sp (Some hx) counting_host = Inr (r, g)"
      by (rule interceptor_returns)
    have "r ''X-Trace-ID'' = Some ''4bf92f3577b34da6a3ce929d0e0e4736''"
      using empty_header_counts_as_absent [where hs = hx and k = "''X-Trace-ID''" and s = S
          and otel = sp and h = counting_host] v e
      unfolding i sum.case prod.case by (simp add: sp_def)
    then show ?thesis
      unfolding i sum.case prod.case by blast
  qed
  have 3: "(case interceptor S (Some No_span) (Some hx) counting_host of
      Inr (r, h') \<Rightarrow> r ''X-Trace-ID'' = Some ''''
    | Inl e \<Rightarrow> False)"
  proof -
    obtain r g where i: "interceptor S (Some No_span) (Some hx) counting_host = Inr (r, g)"
      by (rule interceptor_returns)
    have "r ''X-Trace-ID'' = Some ''''"
      using empty_header_counts_as_absent [where hs = hx and k = "''X-Trace-ID''" and s = S
          and otel = "Some No_span" and h = counting_host] v e
      unfolding i sum.case prod.case by simp
    then show ?thesis
      unfolding i sum.case prod.case by blast
  qed
  from v 1 2 3 show ?thesis
    unfolding S_def hs_def hx_def sp_def by blast
qed

text \<open>
  The claim as stated has the empty value overwritten whenever the feature is enabled.
  With trace context enabled and no tracing runtime, an empty \<^verbatim>\<open>X-Trace-ID\<close> stays empty.
\<close>

theorem empty_trace_id_header_counterexample:
  "enableTraceContext
     \<lparr>transactionIdHeader = ''X-Transaction-ID'', disableTransactionId = False,
      enableTraceContext = True, useTraceIdAsTransactionId = False, serviceName = None\<rparr> \<and>
   [''X-Trace-ID'' \<mapsto> (''''::string)] ''X-Trace-ID'' = Some '''' \<and>
   (case interceptor
          \<lparr>transactionIdHeader = ''X-Transaction-ID'', disableTransactionId = False,
            enableTraceContext = True, useTraceIdAsTransactionId = False, serviceName = None\<rparr>
          None (Some [''X-Trace-ID'' \<mapsto> '''']) counting_host of
      Inr (r, h') \<Rightarrow> r ''X-Trace-ID'' = Some ''''
    | Inl e \<Rightarrow> False)"
  by code_simp

section \<open>Distinct sources give distinct identifiers\<close>

lemma hex_digit_inj: "i < 16 \<Longrightarrow> j < 16 \<Longrightarrow> hex_digit i = hex_digit j \<Longrightarrow> i = j"
proof -
  assume "i < 16" "j < 16" "hex_digit i = hex_digit j"
  moreover have "distinct ''0123456789abcdef''" by simp
  ultimately show "i = j"
    unfolding hex_digit_def by (simp add: nth_eq_iff_index_eq)
qed

lemma byte_hex_inj: "byte_hex a = byte_hex b \<Longrightarrow> a = b"
proof -
  assume e: "byte_hex a = byte_hex b"
  have la: "unat a < 256" using unsigned_less [of a, where ?'a = nat] by simp
  have lb: "unat b < 256" using unsigned_less [of b, where ?'a = nat] by simp
  from la lb have d: "unat a div 16 < 16" "unat b div 16 < 16" by simp_all
  have m: "unat a mod 16 < 16" "unat b mod 16 < 16" by simp_all
  from e have "hex_digit (unat a div 16) = hex_digit (unat b div 16)"
    and "hex_digit (unat a mod 16) = hex_digit (unat b mod 16)"
    by (simp_all add: byte_hex_digits)
  then have "unat a div 16 = unat b div 16" and "unat a mod 16 = unat b mod 16"
    using d m by (blast intro: hex_digit_inj)+
  then have "unat a = unat b"
    by (metis div_mult_mod_eq)
  then show "a = b" by (simp add: word_unat_eq_iff)
qed

lemma hex_bytes_inj:
  "length as = length bs \<Longrightarrow> hex_bytes as = hex_bytes bs \<Longrightarrow> as = bs"
proof (induction as bs rule: list_induct2)
  case Nil
  then show ?case by simp
next
  case (Cons a as b bs)
  from Cons.prems have "byte_hex a @ hex_bytes as = byte_hex b @ hex_bytes bs"
    by (simp add: hex_bytes_def)
  then have "byte_hex a = byte_hex b \<and> hex_bytes as = hex_bytes bs"
    by (simp add: length_byte_hex)
  then show ?case
    using Cons.IH byte_hex_inj by blast
qed

lemma upt_24: "[d..<d + 24] = [d..<d + 16] @ [d + 16..<d + 16 + 8]" for d :: nat
proof -
  have "d + 24 = d + 16 + 8" by simp
  then show ?thesis by (simp only: upt_add_eq_append [OF le_add1])
qed

lemma next_bytes_24:
  "next_bytes 24 h = next_bytes 16 h @ next_bytes 8 (h\<lparr>drawn := drawn h + 16\<rparr>)"
proof (cases "crypto h")
  case None
  then show ?thesis
    unfolding next_bytes_def upt_24 by simp
next
  case (Some g)
  then show ?thesis
    unfolding next_bytes_def upt_24 by simp
qed

lemma traceparent_inj:
  assumes "''00-'' @ hex_bytes (next_bytes 16 h1) @ ''-'' @
           hex_bytes (next_bytes 8 (h1\<lparr>drawn := drawn h1 + 16\<rparr>)) @ ''-01''
         = ''00-'' @ hex_bytes (next_bytes 16 h2) @ ''-'' @
           hex_bytes (next_bytes 8 (h2\<lparr>drawn := drawn h2 + 16\<rparr>)) @ ''-01''"
  shows "next_bytes 24 h1 = next_bytes 24 h2"
proof -
  from assms have
    "hex_bytes (next_bytes 16 h1) = hex_bytes (next_bytes 16 h2) \<and>
     hex_bytes (next_bytes 8 (h1\<lparr>drawn := drawn h1 + 16\<rparr>)) =
       hex_bytes (next_bytes 8 (h2\<lparr>drawn := drawn h2 + 16\<rparr>))"
    by (simp add: length_hex_bytes length_next_bytes)
  then have "next_bytes 16 h1 = next_bytes 16 h2 \<and>
     next_bytes 8 (h1\<lparr>drawn := drawn h1 + 16\<rparr>) = next_bytes 8 (h2\<lparr>drawn := drawn h2 + 16\<rparr>)"
    by (simp add: hex_bytes_inj length_next_bytes)
  then show ?thesis
    by (simp add: next_bytes_24)
qed

lemma split16:
  assumes "length (a :: 'a list) = 16"
  shows "a = take 4 a @ take 2 (drop 4 a) @ take 2 (drop 6 a) @ take 2 (drop 8 a) @
             take 6 (drop 10 a)"
proof -
  obtain a0 a1 a2 a3 a4 a5 a6 a7 a8 a9 a10 a11 a12 a13 a14 a15 where
    "a = [a0, a1, a2, a3, a4, a5, a6, a7, a8, a9, a10, a11, a12, a13, a14, a15]"
    using list16 [OF assms] by blast
  then show ?thesis by simp
qed

lemma uuid_stringify_inj:
  assumes "length a = 16" "length b = 16" "uuid_stringify a = uuid_stringify b"
  shows "a = b"
proof -
  from assms have
    "hex_bytes (take 4 a) = hex_bytes (take 4 b) \<and>
     hex_bytes (take 2 (drop 4 a)) = hex_bytes (take 2 (drop 4 b)) \<and>
     hex_bytes (take 2 (drop 6 a)) = hex_bytes (take 2 (drop 6 b)) \<and>
     hex_bytes (take 2 (drop 8 a)) = hex_bytes (take 2 (drop 8 b)) \<and>
     hex_bytes (take 6 (drop 10 a)) = hex_bytes (take 6 (drop 10 b))"
    by (simp add: uuid_stringify_def length_hex_bytes)
  then have "take 4 a = take 4 b \<and> take 2 (drop 4 a) = take 2 (drop 4 b) \<and>
     take 2 (drop 6 a) = take 2 (drop 6 b) \<and> take 2 (drop 8 a) = take 2 (drop 8 b) \<and>
     take 6 (drop 10 a) = take 6 (drop 10 b)"
    using assms(1,2) by (simp add: hex_bytes_inj)
  then show ?thesis
    using split16 [OF assms(1)] split16 [OF assms(2)] by simp
qed

lemma length_uuid_stamp: "length (uuid_stamp rnds) = length rnds"
  by (simp add: uuid_stamp_def)

lemma uuidv4_inj:
  "fst (uuidv4 h1) = fst (uuidv4 h2) \<Longrightarrow>
   uuid_stamp (fst (uuid_random h1)) = uuid_stamp (fst (uuid_random h2))"
  by (simp add: uuidv4_eq uuid_stringify_inj length_uuid_stamp length_uuid_random)

lemma interceptor_traceparent:
  assumes "enableTraceContext s" "\<not> truthy (hs ''traceparent'')"
    and "interceptor s otel (Some hs) h = Inr (r, g)"
  shows "r ''traceparent'' =
           Some (''00-'' @ hex_bytes (next_bytes 16 h) @ ''-'' @
                 hex_bytes (next_bytes 8 (h\<lparr>drawn := drawn h + 16\<rparr>)) @ ''-01'')"
proof -
  obtain tid1 hs1 where a: "span_step s otel h hs = (tid1, hs1)"
    by (cases "span_step s otel h hs")
  obtain tid2 hs2 h2 where b: "traceparent_step s tid1 hs1 h = Inr (tid2, hs2, h2)"
    by (rule traceparent_step_returns)
  obtain hs3 h3 where c: "transaction_step s tid2 hs2 h2 = (hs3, h3)"
    by (cases "transaction_step s tid2 hs2 h2")
  have i: "interceptor s otel (Some hs) h = Inr (service_step s h3 hs3, h3)"
    by (rule interceptor_steps [OF _ b c]) (simp add: a)
  have 1: "hs1 ''traceparent'' = hs ''traceparent''"
    using span_step_other [of "''traceparent''" s otel h hs] a by simp
  have 2: "hs2 ''traceparent'' =
           Some (''00-'' @ hex_bytes (next_bytes 16 h) @ ''-'' @
                 hex_bytes (next_bytes 8 (h\<lparr>drawn := drawn h + 16\<rparr>)) @ ''-01'')"
    using traceparent_step_value [OF b] assms(1,2) 1 by simp
  then have t: "truthy (hs2 ''traceparent'')"
    by simp
  have 3: "hs3 ''traceparent'' = hs2 ''traceparent''"
    using transaction_step_keeps [of hs2 "''traceparent''" s tid2 h2] t c by simp
  have "service_step s h3 hs3 ''traceparent'' = hs3 ''traceparent''"
    using service_step_keeps [of hs3 "''traceparent''" s h3] t 3 by simp
  with i 2 3 assms(3) show ?thesis by auto
qed

lemma uuidv4_eq_iff:
  "fst (uuidv4 h1) = fst (uuidv4 h2) \<longleftrightarrow>
   uuid_stamp (fst (uuid_random h1)) = uuid_stamp (fst (uuid_random h2))"
  using uuidv4_inj [of h1 h2] by (auto simp: uuidv4_eq)

lemma length_uuidv4: "length (fst (uuidv4 h)) = 36"
  using uuidv4_shape [of h] by (simp add: uuid_v4_shape_def)

lemma synthesized_not_uuid: "hex_bytes (next_bytes 16 h1) \<noteq> fst (uuidv4 h2)"
proof
  assume "hex_bytes (next_bytes 16 h1) = fst (uuidv4 h2)"
  then have "length (hex_bytes (next_bytes 16 h1)) = length (fst (uuidv4 h2))" by simp
  then show False
    by (simp add: length_hex_bytes length_next_bytes length_uuidv4)
qed

text \<open>
  Claim C3, as amended. Two requests of a client, in any two states of the host (so also
  one after the other), both return, and their identifiers are equal only when what they
  are made from is equal.
  \<^item> When both requests get a generated \<^verbatim>\<open>traceparent\<close>, the two values are equal
    exactly when the 24 random bytes drawn for them are equal.
  \<^item> For the transaction id, let injection be not disabled, the configured header be
    neither \<^verbatim>\<open>traceparent\<close> nor \<^verbatim>\<open>X-Trace-ID\<close> nor an inherited property name, and
    neither request carry a non-empty value for it. A request takes its observed trace
    id when \<open>useTraceIdAsTransactionId\<close> is on and that id is available and not empty,
    and a fresh \<^verbatim>\<open>uuidv4()\<close> otherwise. If both take their observed trace ids, the
    transaction ids are these, and are equal exactly when the observed trace ids are. If
    both take a uuid, the ids are equal exactly when the 16 bytes drawn for them are
    equal once version and variant are set. If one takes its observed trace id and the
    other a uuid, the ids are equal exactly when that trace id is the text of the uuid,
    which is never so when the trace id was synthesized and not read from a span. Two
    requests inside active spans with the same non-empty trace id both get that trace id
    as transaction id when \<open>useTraceIdAsTransactionId\<close> is on.
\<close>

theorem ids_collide_only_with_their_sources:
  "(case interceptor s otel1 (Some hs1) h1 of
      Inl e \<Rightarrow> False
    | Inr (r1, g1) \<Rightarrow>
   (case interceptor s otel2 (Some hs2) h2 of
      Inl e \<Rightarrow> False
    | Inr (r2, g2) \<Rightarrow>
   (case observedTraceId s otel1 (Some hs1) h1 of
      Inl e \<Rightarrow> False
    | Inr o1 \<Rightarrow>
   (case observedTraceId s otel2 (Some hs2) h2 of
      Inl e \<Rightarrow> False
    | Inr o2 \<Rightarrow>
      (enableTraceContext s \<and> \<not> truthy (hs1 ''traceparent'') \<and>
       \<not> truthy (hs2 ''traceparent'') \<longrightarrow>
         (r1 ''traceparent'' = r2 ''traceparent'' \<longleftrightarrow>
          next_bytes 24 h1 = next_bytes 24 h2)) \<and>
      (\<not> disableTransactionId s \<and>
       transactionIdHeader s \<noteq> ''traceparent'' \<and> transactionIdHeader s \<noteq> ''X-Trace-ID'' \<and>
       \<not> truthy (hs1 (transactionIdHeader s)) \<and> \<not> truthy (hs2 (transactionIdHeader s)) \<and>
       \<not> inherited h1 (transactionIdHeader s) \<and> \<not> inherited h2 (transactionIdHeader s) \<longrightarrow>
         (useTraceIdAsTransactionId s \<and> truthy o1 \<and> truthy o2 \<longrightarrow>
            r1 (transactionIdHeader s) = o1 \<and> r2 (transactionIdHeader s) = o2 \<and>
            (r1 (transactionIdHeader s) = r2 (transactionIdHeader s) \<longleftrightarrow> o1 = o2)) \<and>
         (\<not> (useTraceIdAsTransactionId s \<and> truthy o1) \<and>
          \<not> (useTraceIdAsTransactionId s \<and> truthy o2) \<longrightarrow>
            r1 (transactionIdHeader s) = Some (fst (uuidv4 h1)) \<and>
            r2 (transactionIdHeader s) = Some (fst (uuidv4 h2)) \<and>
            (r1 (transactionIdHeader s) = r2 (transactionIdHeader s) \<longleftrightarrow>
             uuid_stamp (fst (uuid_random h1)) = uuid_stamp (fst (uuid_random h2)))) \<and>
         (useTraceIdAsTransactionId s \<and> truthy o1 \<and> \<not> truthy o2 \<longrightarrow>
            r1 (transactionIdHeader s) = o1 \<and>
            r2 (transactionIdHeader s) = Some (fst (uuidv4 h2)) \<and>
            (r1 (transactionIdHeader s) = r2 (transactionIdHeader s) \<longleftrightarrow>
             o1 = Some (fst (uuidv4 h2))) \<and>
            ((case otel1 of Some (Active_span t) \<Rightarrow> False | _ \<Rightarrow> True) \<longrightarrow>
             r1 (transactionIdHeader s) \<noteq> r2 (transactionIdHeader s))) \<and>
         (useTraceIdAsTransactionId s \<and> otel1 = Some (Active_span t) \<and>
          otel2 = Some (Active_span t) \<and> t \<noteq> [] \<longrightarrow>
            r1 (transactionIdHeader s) = Some t \<and> r2 (transactionIdHeader s) = Some t))))))"
proof -
  obtain r1 g1 where i1: "interceptor s otel1 (Some hs1) h1 = Inr (r1, g1)"
    by (rule interceptor_returns)
  obtain r2 g2 where i2: "interceptor s otel2 (Some hs2) h2 = Inr (r2, g2)"
    by (rule interceptor_returns)
  obtain o1 where e1: "observedTraceId s otel1 (Some hs1) h1 = Inr o1"
    by (simp add: observedTraceId_eq)
  obtain o2 where e2: "observedTraceId s otel2 (Some hs2) h2 = Inr o2"
    by (simp add: observedTraceId_eq)
  have ov1: "o1 =
      (case otel1 of
         Some (Active_span t) \<Rightarrow> Some t
       | _ \<Rightarrow> if enableTraceContext s \<and> \<not> truthy (hs1 ''traceparent'')
              then Some (hex_bytes (next_bytes 16 h1)) else None)"
    using e1 by (simp add: observedTraceId_eq)
  have ov2: "o2 =
      (case otel2 of
         Some (Active_span t) \<Rightarrow> Some t
       | _ \<Rightarrow> if enableTraceContext s \<and> \<not> truthy (hs2 ''traceparent'')
              then Some (hex_bytes (next_bytes 16 h2)) else None)"
    using e2 by (simp add: observedTraceId_eq)
  have tp: "enableTraceContext s \<and> \<not> truthy (hs1 ''traceparent'') \<and>
       \<not> truthy (hs2 ''traceparent'') \<longrightarrow>
         (r1 ''traceparent'' = r2 ''traceparent'' \<longleftrightarrow>
          next_bytes 24 h1 = next_bytes 24 h2)"
  proof
    assume p: "enableTraceContext s \<and> \<not> truthy (hs1 ''traceparent'') \<and>
       \<not> truthy (hs2 ''traceparent'')"
    have v1: "r1 ''traceparent'' =
           Some (''00-'' @ hex_bytes (next_bytes 16 h1) @ ''-'' @
                 hex_bytes (next_bytes 8 (h1\<lparr>drawn := drawn h1 + 16\<rparr>)) @ ''-01'')"
      using p i1 by (intro interceptor_traceparent [of s hs1 otel1 h1 r1 g1]) simp_all
    have v2: "r2 ''traceparent'' =
           Some (''00-'' @ hex_bytes (next_bytes 16 h2) @ ''-'' @
                 hex_bytes (next_bytes 8 (h2\<lparr>drawn := drawn h2 + 16\<rparr>)) @ ''-01'')"
      using p i2 by (intro interceptor_traceparent [of s hs2 otel2 h2 r2 g2]) simp_all
    show "r1 ''traceparent'' = r2 ''traceparent'' \<longleftrightarrow> next_bytes 24 h1 = next_bytes 24 h2"
    proof
      assume "r1 ''traceparent'' = r2 ''traceparent''"
      then show "next_bytes 24 h1 = next_bytes 24 h2"
        unfolding v1 v2 option.inject by (rule traceparent_inj)
    next
      assume "next_bytes 24 h1 = next_bytes 24 h2"
      then have "next_bytes 16 h1 = next_bytes 16 h2 \<and>
          next_bytes 8 (h1\<lparr>drawn := drawn h1 + 16\<rparr>) = next_bytes 8 (h2\<lparr>drawn := drawn h2 + 16\<rparr>)"
        by (simp add: next_bytes_24 length_next_bytes)
      then show "r1 ''traceparent'' = r2 ''traceparent''"
        by (simp add: v1 v2)
    qed
  qed
  have tx: "\<not> disableTransactionId s \<and>
       transactionIdHeader s \<noteq> ''traceparent'' \<and> transactionIdHeader s \<noteq> ''X-Trace-ID'' \<and>
       \<not> truthy (hs1 (transactionIdHeader s)) \<and> \<not> truthy (hs2 (transactionIdHeader s)) \<and>
       \<not> inherited h1 (transactionIdHeader s) \<and> \<not> inherited h2 (transactionIdHeader s) \<longrightarrow>
         (useTraceIdAsTransactionId s \<and> truthy o1 \<and> truthy o2 \<longrightarrow>
            r1 (transactionIdHeader s) = o1 \<and> r2 (transactionIdHeader s) = o2 \<and>
            (r1 (transactionIdHeader s) = r2 (transactionIdHeader s) \<longleftrightarrow> o1 = o2)) \<and>
         (\<not> (useTraceIdAsTransactionId s \<and> truthy o1) \<and>
          \<not> (useTraceIdAsTransactionId s \<and> truthy o2) \<longrightarrow>
            r1 (transactionIdHeader s) = Some (fst (uuidv4 h1)) \<and>
            r2 (transactionIdHeader s) = Some (fst (uuidv4 h2)) \<and>
            (r1 (transactionIdHeader s) = r2 (transactionIdHeader s) \<longleftrightarrow>
             uuid_stamp (fst (uuid_random h1)) = uuid_stamp (fst (uuid_random h2)))) \<and>
         (useTraceIdAsTransactionId s \<and> truthy o1 \<and> \<not> truthy o2 \<longrightarrow>
            r1 (transactionIdHeader s) = o1 \<and>
            r2 (transactionIdHeader s) = Some (fst (uuidv4 h2)) \<and>
            (r1 (transactionIdHeader s) = r2 (transactionIdHeader s) \<longleftrightarrow>
             o1 = Some (fst (uuidv4 h2))) \<and>
            ((case otel1 of Some (Active_span t) \<Rightarrow> False | _ \<Rightarrow> True) \<longrightarrow>
             r1 (transactionIdHeader s) \<noteq> r2 (transactionIdHeader s))) \<and>
         (useTraceIdAsTransactionId s \<and> otel1 = Some (Active_span t) \<and>
          otel2 = Some (Active_span t) \<and> t \<noteq> [] \<longrightarrow>
            r1 (transactionIdHeader s) = Some t \<and> r2 (transactionIdHeader s) = Some t)"
  proof
    assume p: "\<not> disableTransactionId s \<and>
       transactionIdHeader s \<noteq> ''traceparent'' \<and> transactionIdHeader s \<noteq> ''X-Trace-ID'' \<and>
       \<not> truthy (hs1 (transactionIdHeader s)) \<and> \<not> truthy (hs2 (transactionIdHeader s)) \<and>
       \<not> inherited h1 (transactionIdHeader s) \<and> \<not> inherited h2 (transactionIdHeader s)"
    have v1: "r1 (transactionIdHeader s) =
           Some (case o1 of
                   Some t \<Rightarrow> if useTraceIdAsTransactionId s \<and> t \<noteq> [] then t
                             else fst (uuidv4 h1)
                 | None \<Rightarrow> fst (uuidv4 h1))"
      using p i1 e1 by (intro interceptor_transaction_id [of s hs1 h1 otel1 r1 g1 o1]) simp_all
    have v2: "r2 (transactionIdHeader s) =
           Some (case o2 of
                   Some t \<Rightarrow> if useTraceIdAsTransactionId s \<and> t \<noteq> [] then t
                             else fst (uuidv4 h2)
                 | None \<Rightarrow> fst (uuidv4 h2))"
      using p i2 e2 by (intro interceptor_transaction_id [of s hs2 h2 otel2 r2 g2 o2]) simp_all
    have a: "useTraceIdAsTransactionId s \<and> truthy o1 \<and> truthy o2 \<longrightarrow>
            r1 (transactionIdHeader s) = o1 \<and> r2 (transactionIdHeader s) = o2 \<and>
            (r1 (transactionIdHeader s) = r2 (transactionIdHeader s) \<longleftrightarrow> o1 = o2)"
      by (cases o1; cases o2) (simp_all add: v1 v2)
    have b: "\<not> (useTraceIdAsTransactionId s \<and> truthy o1) \<and>
          \<not> (useTraceIdAsTransactionId s \<and> truthy o2) \<longrightarrow>
            r1 (transactionIdHeader s) = Some (fst (uuidv4 h1)) \<and>
            r2 (transactionIdHeader s) = Some (fst (uuidv4 h2)) \<and>
            (r1 (transactionIdHeader s) = r2 (transactionIdHeader s) \<longleftrightarrow>
             uuid_stamp (fst (uuid_random h1)) = uuid_stamp (fst (uuid_random h2)))"
      by (cases o1; cases o2) (auto simp: v1 v2 uuidv4_eq_iff)
    have c: "useTraceIdAsTransactionId s \<and> truthy o1 \<and> \<not> truthy o2 \<longrightarrow>
            r1 (transactionIdHeader s) = o1 \<and>
            r2 (transactionIdHeader s) = Some (fst (uuidv4 h2)) \<and>
            (r1 (transactionIdHeader s) = r2 (transactionIdHeader s) \<longleftrightarrow>
             o1 = Some (fst (uuidv4 h2))) \<and>
            ((case otel1 of Some (Active_span t) \<Rightarrow> False | _ \<Rightarrow> True) \<longrightarrow>
             r1 (transactionIdHeader s) \<noteq> r2 (transactionIdHeader s))"
    proof
      assume q: "useTraceIdAsTransactionId s \<and> truthy o1 \<and> \<not> truthy o2"
      have w1: "r1 (transactionIdHeader s) = o1"
        using q by (cases o1) (simp_all add: v1)
      have w2: "r2 (transactionIdHeader s) = Some (fst (uuidv4 h2))"
        using q by (cases o2) (simp_all add: v2)
      have w3: "(case otel1 of Some (Active_span t) \<Rightarrow> False | _ \<Rightarrow> True) \<longrightarrow>
          o1 \<noteq> Some (fst (uuidv4 h2))"
        using q synthesized_not_uuid [of h1 h2]
        by (auto simp: ov1 split: option.splits span_lookup.splits if_splits)
      show "r1 (transactionIdHeader s) = o1 \<and>
            r2 (transactionIdHeader s) = Some (fst (uuidv4 h2)) \<and>
            (r1 (transactionIdHeader s) = r2 (transactionIdHeader s) \<longleftrightarrow>
             o1 = Some (fst (uuidv4 h2))) \<and>
            ((case otel1 of Some (Active_span t) \<Rightarrow> False | _ \<Rightarrow> True) \<longrightarrow>
             r1 (transactionIdHeader s) \<noteq> r2 (transactionIdHeader s))"
        using w3 unfolding w1 w2 by blast
    qed
    have d: "useTraceIdAsTransactionId s \<and> otel1 = Some (Active_span t) \<and>
          otel2 = Some (Active_span t) \<and> t \<noteq> [] \<longrightarrow>
            r1 (transactionIdHeader s) = Some t \<and> r2 (transactionIdHeader s) = Some t"
    proof
      assume q: "useTraceIdAsTransactionId s \<and> otel1 = Some (Active_span t) \<and>
          otel2 = Some (Active_span t) \<and> t \<noteq> []"
      then have "o1 = Some t" "o2 = Some t"
        by (simp_all add: ov1 ov2)
      with q show "r1 (transactionIdHeader s) = Some t \<and> r2 (transactionIdHeader s) = Some t"
        by (simp add: v1 v2)
    qed
    from a b c d show "(useTraceIdAsTransactionId s \<and> truthy o1 \<and> truthy o2 \<longrightarrow>
            r1 (transactionIdHeader s) = o1 \<and> r2 (transactionIdHeader s) = o2 \<and>
            (r1 (transactionIdHeader s) = r2 (transactionIdHeader s) \<longleftrightarrow> o1 = o2)) \<and>
         (\<not> (useTraceIdAsTransactionId s \<and> truthy o1) \<and>
          \<not> (useTraceIdAsTransactionId s \<and> truthy o2) \<longrightarrow>
            r1 (transactionIdHeader s) = Some (fst (uuidv4 h1)) \<and>
            r2 (transactionIdHeader s) = Some (fst (uuidv4 h2)) \<and>
            (r1 (transactionIdHeader s) = r2 (transactionIdHeader s) \<longleftrightarrow>
             uuid_stamp (fst (uuid_random h1)) = uuid_stamp (fst (uuid_random h2)))) \<and>
         (useTraceIdAsTransactionId s \<and> truthy o1 \<and> \<not> truthy o2 \<longrightarrow>
            r1 (transactionIdHeader s) = o1 \<and>
            r2 (transactionIdHeader s) = Some (fst (uuidv4 h2)) \<and>
            (r1 (transactionIdHeader s) = r2 (transactionIdHeader s) \<longleftrightarrow>
             o1 = Some (fst (uuidv4 h2))) \<and>
            ((case otel1 of Some (Active_span t) \<Rightarrow> False | _ \<Rightarrow> True) \<longrightarrow>
             r1 (transactionIdHeader s) \<noteq> r2 (transactionIdHeader s))) \<and>
         (useTraceIdAsTransactionId s \<and> otel1 = Some (Active_span t) \<and>
          otel2 = Some (Active_span t) \<and> t \<noteq> [] \<longrightarrow>
            r1 (transactionIdHeader s) = Some t \<and> r2 (transactionIdHeader s) = Some t)"
      by (intro conjI)
  qed
  from tp tx show ?thesis
    by (simp only: i1 i2 e1 e2 sum.case prod.case simp_thms)
qed

theorem ids_collide_only_with_their_sources_witness:
  "(case interceptor
          \<lparr>transactionIdHeader = ''X-Transaction-ID'', disableTransactionId = False,
            enableTraceContext = True, useTraceIdAsTransactionId = False, serviceName = None\<rparr>
          None (Some Map.empty) counting_host of
      Inl e \<Rightarrow> False
    | Inr (r1, g1) \<Rightarrow>
       (case interceptor
          \<lparr>transactionIdHeader = ''X-Transaction-ID'', disableTransactionId = False,
            enableTraceContext = True, useTraceIdAsTransactionId = False, serviceName = None\<rparr>
          None (Some Map.empty) g1 of
          Inl e \<Rightarrow> False
        | Inr (r2, g2) \<Rightarrow>
            r1 ''traceparent'' \<noteq> r2 ''traceparent'' \<and>
            r1 ''X-Transaction-ID'' \<noteq> r2 ''X-Transaction-ID'')) \<and>
   (case interceptor
          \<lparr>transactionIdHeader = ''X-Transaction-ID'', disableTransactionId = False,
            enableTraceContext = True, useTraceIdAsTransactionId = True, serviceName = None\<rparr>
          None (Some Map.empty) counting_host of
      Inl e \<Rightarrow> False
    | Inr (r1, g1) \<Rightarrow>
       (case interceptor
          \<lparr>transactionIdHeader = ''X-Transaction-ID'', disableTransactionId = False,
            enableTraceContext = True, useTraceIdAsTransactionId = True, serviceName = None\<rparr>
          (Some (Active_span ''4bf92f3577b34da6a3ce929d0e0e4736'')) (Some Map.empty) g1 of
          Inl e \<Rightarrow> False
        | Inr (r2, g2) \<Rightarrow>
            r1 ''X-Transaction-ID'' = Some ''031425364758697a8b9cadbecfe0f102'' \<and>
            r2 ''X-Transaction-ID'' = Some ''4bf92f3577b34da6a3ce929d0e0e4736'')) \<and>
   (case interceptor
          \<lparr>transactionIdHeader = ''X-Transaction-ID'', disableTransactionId = False,
            enableTraceContext = True, useTraceIdAsTransactionId = True, serviceName = None\<rparr>
          None (Some Map.empty) counting_host of
      Inl e \<Rightarrow> False
    | Inr (r1, g1) \<Rightarrow>
       (case interceptor
          \<lparr>transactionIdHeader = ''X-Transaction-ID'', disableTransactionId = False,
            enableTraceContext = True, useTraceIdAsTransactionId = True, serviceName = None\<rparr>
          None
          (Some [''traceparent'' \<mapsto> ''00-0af7651916cd43dd8448eb211c80319c-b7ad6b7169203331-01''])
          g1 of
          Inl e \<Rightarrow> False
        | Inr (r2, g2) \<Rightarrow>
            r1 ''X-Transaction-ID'' = Some ''031425364758697a8b9cadbecfe0f102'' \<and>
            r2 ''X-Transaction-ID'' = Some ''05223f5c-7996-43d0-ad0a-2744617e9bb8'' \<and>
            r1 ''X-Transaction-ID'' \<noteq> r2 ''X-Transaction-ID'')) \<and>
   (case interceptor
          \<lparr>transactionIdHeader = ''X-Transaction-ID'', disableTransactionId = False,
            enableTraceContext = True, useTraceIdAsTransactionId = True, serviceName = None\<rparr>
          (Some (Active_span ''4bf92f3577b34da6a3ce929d0e0e4736'')) (Some Map.empty)
          counting_host of
      Inl e \<Rightarrow> False
    | Inr (r1, g1) \<Rightarrow>
       (case interceptor
          \<lparr>transactionIdHeader = ''X-Transaction-ID'', disableTransactionId = False,
            enableTraceContext = True, useTraceIdAsTransactionId = True, serviceName = None\<rparr>
          (Some (Active_span ''4bf92f3577b34da6a3ce929d0e0e4736'')) (Some Map.empty) g1 of
          Inl e \<Rightarrow> False
        | Inr (r2, g2) \<Rightarrow>
            r1 ''X-Transaction-ID'' = Some ''4bf92f3577b34da6a3ce929d0e0e4736'' \<and>
            r2 ''X-Transaction-ID'' = Some ''4bf92f3577b34da6a3ce929d0e0e4736''))"
proof -
  define S where "S =
          \<lparr>transactionIdHeader = ''X-Transaction-ID'', disableTransactionId = False,
            enableTraceContext = True, useTraceIdAsTransactionId = False, serviceName = None\<rparr>"
  define T where "T =
          \<lparr>transactionIdHeader = ''X-Transaction-ID'', disableTransactionId = False,
            enableTraceContext = True, useTraceIdAsTransactionId = True, serviceName = None\<rparr>"
  define hs :: headers where "hs = Map.empty"
  define hp :: headers where
    "hp = [''traceparent'' \<mapsto> ''00-0af7651916cd43dd8448eb211c80319c-b7ad6b7169203331-01'']"
  define sp where "sp = Some (Active_span ''4bf92f3577b34da6a3ce929d0e0e4736'')"
  have s: "\<not> disableTransactionId S" "transactionIdHeader S = ''X-Transaction-ID''"
    "\<not> useTraceIdAsTransactionId S" "enableTraceContext S"
    by (simp_all add: S_def)
  have t: "\<not> disableTransactionId T" "transactionIdHeader T = ''X-Transaction-ID''"
    "useTraceIdAsTransactionId T" "enableTraceContext T"
    by (simp_all add: T_def)
  have e: "\<not> truthy (hs ''X-Transaction-ID'')" "\<not> truthy (hs ''traceparent'')"
    "\<not> truthy (hp ''X-Transaction-ID'')"
    by (simp_all add: hs_def hp_def)
  have n: "\<not> inherited counting_host ''X-Transaction-ID''"
    by (simp add: inherited_def counting_host_def)
  have o: "observedTraceId T None (Some hs) counting_host
      = Inr (Some ''031425364758697a8b9cadbecfe0f102'')"
    "observedTraceId T sp (Some hs) counting_host
      = Inr (Some ''4bf92f3577b34da6a3ce929d0e0e4736'')"
    unfolding T_def hs_def sp_def by code_simp+
  have 1: "(case interceptor S None (Some hs) counting_host of
      Inl e \<Rightarrow> False
    | Inr (r1, g1) \<Rightarrow>
       (case interceptor S None (Some hs) g1 of
          Inl e \<Rightarrow> False
        | Inr (r2, g2) \<Rightarrow>
            r1 ''traceparent'' \<noteq> r2 ''traceparent'' \<and>
            r1 ''X-Transaction-ID'' \<noteq> r2 ''X-Transaction-ID''))"
  proof -
    have f: "(case interceptor S None (Some hs) counting_host of
        Inl e \<Rightarrow> False
      | Inr (r, g) \<Rightarrow>
          next_bytes 24 counting_host \<noteq> next_bytes 24 g \<and>
          uuid_stamp (fst (uuid_random counting_host)) \<noteq> uuid_stamp (fst (uuid_random g)) \<and>
          \<not> inherited g ''X-Transaction-ID'')"
      unfolding S_def hs_def by code_simp
    obtain r1 g1 where i1: "interceptor S None (Some hs) counting_host = Inr (r1, g1)"
      by (rule interceptor_returns)
    obtain r2 g2 where i2: "interceptor S None (Some hs) g1 = Inr (r2, g2)"
      by (rule interceptor_returns)
    obtain o1 where e1: "observedTraceId S None (Some hs) counting_host = Inr o1"
      by (simp add: observedTraceId_eq)
    obtain o2 where e2: "observedTraceId S None (Some hs) g1 = Inr o2"
      by (simp add: observedTraceId_eq)
    from f have g: "next_bytes 24 counting_host \<noteq> next_bytes 24 g1"
      "uuid_stamp (fst (uuid_random counting_host)) \<noteq> uuid_stamp (fst (uuid_random g1))"
      "\<not> inherited g1 ''X-Transaction-ID''"
      by (simp_all add: i1)
    have "r1 ''traceparent'' \<noteq> r2 ''traceparent'' \<and>
          r1 ''X-Transaction-ID'' \<noteq> r2 ''X-Transaction-ID''"
      using ids_collide_only_with_their_sources
        [where s = S and ?otel1.0 = None and ?otel2.0 = None and ?hs1.0 = hs and ?hs2.0 = hs
           and ?h1.0 = counting_host and ?h2.0 = g1 and t = "[]",
         unfolded i1 i2 e1 e2 sum.case prod.case]
        s e n g
      by (simp add: uuidv4_eq_iff)
    then show ?thesis
      unfolding i1 i2 sum.case prod.case by blast
  qed
  have 2: "(case interceptor T None (Some hs) counting_host of
      Inl e \<Rightarrow> False
    | Inr (r1, g1) \<Rightarrow>
       (case interceptor T sp (Some hs) g1 of
          Inl e \<Rightarrow> False
        | Inr (r2, g2) \<Rightarrow>
            r1 ''X-Transaction-ID'' = Some ''031425364758697a8b9cadbecfe0f102'' \<and>
            r2 ''X-Transaction-ID'' = Some ''4bf92f3577b34da6a3ce929d0e0e4736''))"
  proof -
    have f: "(case interceptor T None (Some hs) counting_host of
        Inl e \<Rightarrow> False
      | Inr (r, g) \<Rightarrow>
          observedTraceId T sp (Some hs) g = Inr (Some ''4bf92f3577b34da6a3ce929d0e0e4736'') \<and>
          \<not> inherited g ''X-Transaction-ID'')"
      unfolding T_def hs_def sp_def by code_simp
    obtain r1 g1 where i1: "interceptor T None (Some hs) counting_host = Inr (r1, g1)"
      by (rule interceptor_returns)
    obtain r2 g2 where i2: "interceptor T sp (Some hs) g1 = Inr (r2, g2)"
      by (rule interceptor_returns)
    from f have g: "observedTraceId T sp (Some hs) g1
        = Inr (Some ''4bf92f3577b34da6a3ce929d0e0e4736'')"
      "\<not> inherited g1 ''X-Transaction-ID''"
      by (simp_all add: i1)
    have "r1 ''X-Transaction-ID'' = Some ''031425364758697a8b9cadbecfe0f102'' \<and>
          r2 ''X-Transaction-ID'' = Some ''4bf92f3577b34da6a3ce929d0e0e4736''"
      using ids_collide_only_with_their_sources
        [where s = T and ?otel1.0 = None and ?otel2.0 = sp and ?hs1.0 = hs and ?hs2.0 = hs
           and ?h1.0 = counting_host and ?h2.0 = g1 and t = "[]",
         unfolded i1 i2 o(1) g(1) sum.case prod.case]
        t e n g(2)
      by simp
    then show ?thesis
      unfolding i1 i2 sum.case prod.case by blast
  qed
  have 3: "(case interceptor T None (Some hs) counting_host of
      Inl e \<Rightarrow> False
    | Inr (r1, g1) \<Rightarrow>
       (case interceptor T None (Some hp) g1 of
          Inl e \<Rightarrow> False
        | Inr (r2, g2) \<Rightarrow>
            r1 ''X-Transaction-ID'' = Some ''031425364758697a8b9cadbecfe0f102'' \<and>
            r2 ''X-Transaction-ID'' = Some ''05223f5c-7996-43d0-ad0a-2744617e9bb8'' \<and>
            r1 ''X-Transaction-ID'' \<noteq> r2 ''X-Transaction-ID''))"
  proof -
    have f: "(case interceptor T None (Some hs) counting_host of
        Inl e \<Rightarrow> False
      | Inr (r, g) \<Rightarrow>
          observedTraceId T None (Some hp) g = Inr None \<and>
          \<not> inherited g ''X-Transaction-ID'' \<and>
          fst (uuidv4 g) = ''05223f5c-7996-43d0-ad0a-2744617e9bb8'')"
      unfolding T_def hs_def hp_def by code_simp
    obtain r1 g1 where i1: "interceptor T None (Some hs) counting_host = Inr (r1, g1)"
      by (rule interceptor_returns)
    obtain r2 g2 where i2: "interceptor T None (Some hp) g1 = Inr (r2, g2)"
      by (rule interceptor_returns)
    from f have g: "observedTraceId T None (Some hp) g1 = Inr None"
      "\<not> inherited g1 ''X-Transaction-ID''"
      "fst (uuidv4 g1) = ''05223f5c-7996-43d0-ad0a-2744617e9bb8''"
      by (simp_all add: i1)
    have "r1 ''X-Transaction-ID'' = Some ''031425364758697a8b9cadbecfe0f102'' \<and>
          r2 ''X-Transaction-ID'' = Some ''05223f5c-7996-43d0-ad0a-2744617e9bb8'' \<and>
          r1 ''X-Transaction-ID'' \<noteq> r2 ''X-Transaction-ID''"
      using ids_collide_only_with_their_sources
        [where s = T and ?otel1.0 = None and ?otel2.0 = None and ?hs1.0 = hs and ?hs2.0 = hp
           and ?h1.0 = counting_host and ?h2.0 = g1 and t = "[]",
         unfolded i1 i2 o(1) g(1) sum.case prod.case]
        t e n g(2,3)
      by simp
    then show ?thesis
      unfolding i1 i2 sum.case prod.case by blast
  qed
  have 4: "(case interceptor T sp (Some hs) counting_host of
      Inl e \<Rightarrow> False
    | Inr (r1, g1) \<Rightarrow>
       (case interceptor T sp (Some hs) g1 of
          Inl e \<Rightarrow> False
        | Inr (r2, g2) \<Rightarrow>
            r1 ''X-Transaction-ID'' = Some ''4bf92f3577b34da6a3ce929d0e0e4736'' \<and>
            r2 ''X-Transaction-ID'' = Some ''4bf92f3577b34da6a3ce929d0e0e4736''))"
  proof -
    have f: "(case interceptor T sp (Some hs) counting_host of
        Inl e \<Rightarrow> False
      | Inr (r, g) \<Rightarrow> \<not> inherited g ''X-Transaction-ID'')"
      unfolding T_def hs_def sp_def by code_simp
    obtain r1 g1 where i1: "interceptor T sp (Some hs) counting_host = Inr (r1, g1)"
      by (rule interceptor_returns)
    obtain r2 g2 where i2: "interceptor T sp (Some hs) g1 = Inr (r2, g2)"
      by (rule interceptor_returns)
    obtain o2 where e2: "observedTraceId T sp (Some hs) g1 = Inr o2"
      by (simp add: observedTraceId_eq)
    from f have g: "\<not> inherited g1 ''X-Transaction-ID''"
      by (simp add: i1)
    have "r1 ''X-Transaction-ID'' = Some ''4bf92f3577b34da6a3ce929d0e0e4736'' \<and>
          r2 ''X-Transaction-ID'' = Some ''4bf92f3577b34da6a3ce929d0e0e4736''"
      using ids_collide_only_with_their_sources
        [where s = T and ?otel1.0 = sp and ?otel2.0 = sp and ?hs1.0 = hs and ?hs2.0 = hs
           and ?h1.0 = counting_host and ?h2.0 = g1 and t = "''4bf92f3577b34da6a3ce929d0e0e4736''",
         unfolded i1 i2 o(2) e2 sum.case prod.case]
        t e n g
      by (simp add: sp_def)
    then show ?thesis
      unfolding i1 i2 sum.case prod.case by blast
  qed
  from 1 2 3 4 show ?thesis
    unfolding S_def T_def hs_def hp_def sp_def by blast
qed

text \<open>
  The claim as stated has the ids of any two requests differ. Two requests made one after
  the other inside the same active span with \<open>useTraceIdAsTransactionId\<close> both get the
  span's trace id as transaction id, and on a host whose random source repeats itself two
  requests in a row get the same \<^verbatim>\<open>traceparent\<close>.
\<close>

theorem same_span_same_transaction_id_counterexample:
  "(case interceptor
          \<lparr>transactionIdHeader = ''X-Transaction-ID'', disableTransactionId = False,
            enableTraceContext = False, useTraceIdAsTransactionId = True, serviceName = None\<rparr>
          (Some (Active_span ''4bf92f3577b34da6a3ce929d0e0e4736'')) (Some Map.empty)
          counting_host of
      Inl e \<Rightarrow> False
    | Inr (r1, g1) \<Rightarrow>
       (case interceptor
          \<lparr>transactionIdHeader = ''X-Transaction-ID'', disableTransactionId = False,
            enableTraceContext = False, useTraceIdAsTransactionId = True, serviceName = None\<rparr>
          (Some (Active_span ''4bf92f3577b34da6a3ce929d0e0e4736'')) (Some Map.empty) g1 of
          Inl e \<Rightarrow> False
        | Inr (r2, g2) \<Rightarrow>
            r1 ''X-Transaction-ID'' = Some ''4bf92f3577b34da6a3ce929d0e0e4736'' \<and>
            r2 ''X-Transaction-ID'' = Some ''4bf92f3577b34da6a3ce929d0e0e4736'')) \<and>
   (case interceptor
          \<lparr>transactionIdHeader = ''X-Transaction-ID'', disableTransactionId = False,
            enableTraceContext = True, useTraceIdAsTransactionId = False, serviceName = None\<rparr>
          None (Some Map.empty)
          \<lparr>crypto = Some (\<lambda>i. 0), math_random = (\<lambda>i. 0), drawn = 0,
            uuid_rng = (\<lambda>i. 0), uuid_drawn = 0, array_extra = 0, prototype_names = []\<rparr> of
      Inl e \<Rightarrow> False
    | Inr (r1, g1) \<Rightarrow>
       (case interceptor
          \<lparr>transactionIdHeader = ''X-Transaction-ID'', disableTransactionId = False,
            enableTraceContext = True, useTraceIdAsTransactionId = False, serviceName = None\<rparr>
          None (Some Map.empty) g1 of
          Inl e \<Rightarrow> False
        | Inr (r2, g2) \<Rightarrow>
            r1 ''traceparent''
              = Some ''00-00000000000000000000000000000000-0000000000000000-01'' \<and>
            r2 ''traceparent''
              = Some ''00-00000000000000000000000000000000-0000000000000000-01'' \<and>
            r1 ''X-Transaction-ID'' = Some ''00000000-0000-4000-8000-000000000000'' \<and>
            r2 ''X-Transaction-ID'' = Some ''00000000-0000-4000-8000-000000000000''))"
  by code_simp

end
